theory Spec2Isabelle
  imports Complex_Main
begin

section \<open>Numbers and scalar values of the language\<close>

text \<open>
  The server is a JavaScript program, so every number is a double. A number is modelled
  as one of the three special values or a finite value, a real; the two zeros are one, and
  the special values follow IEEE 754 as the language defines it. The operations of this
  section are the exact ones on finite values: they serve the comparisons, the buckets and
  the update of the table, whose properties below are stated with the operations
  themselves and not with their values in the reals. The periodic step, whose value after
  some steps depends on each rounding, is modelled with the rounding of binary64 written
  out (\<open>round64\<close>, \<open>mul64\<close> and \<open>lit\<close> further down).
\<close>

datatype jsnum = NaN | NegInf | Fin real | PosInf

text \<open>
  A scalar field of a parsed message: absent (\<open>undefined\<close>), \<open>null\<close>, a boolean or a
  number. String, array and object values in numeric fields are outside the model.
\<close>

datatype jsval = JUndefined | JNull | JBool bool | JNum jsnum

fun truthy_num :: "jsnum \<Rightarrow> bool" where
  "truthy_num NaN = False"
| "truthy_num (Fin r) = (r \<noteq> 0)"
| "truthy_num NegInf = True"
| "truthy_num PosInf = True"

fun truthy :: "jsval \<Rightarrow> bool" where
  "truthy JUndefined = False"
| "truthy JNull = False"
| "truthy (JBool b) = b"
| "truthy (JNum n) = truthy_num n"

text \<open>The operator \<open>a || b\<close>.\<close>

definition js_or :: "jsval \<Rightarrow> jsval \<Rightarrow> jsval" where
  "js_or a b = (if truthy a then a else b)"

fun ToNumber :: "jsval \<Rightarrow> jsnum" where
  "ToNumber JUndefined = NaN"
| "ToNumber JNull = Fin 0"
| "ToNumber (JBool b) = Fin (if b then 1 else 0)"
| "ToNumber (JNum n) = n"

text \<open>The comparison \<open>a < b\<close> on numbers: false whenever an operand is NaN.\<close>

fun jlt :: "jsnum \<Rightarrow> jsnum \<Rightarrow> bool" where
  "jlt NaN b = False"
| "jlt a NaN = False"
| "jlt a NegInf = False"
| "jlt PosInf b = False"
| "jlt NegInf b = True"
| "jlt (Fin x) (Fin y) = (x < y)"
| "jlt (Fin x) PosInf = True"

definition jgt :: "jsnum \<Rightarrow> jsnum \<Rightarrow> bool" where
  "jgt a b = jlt b a"

fun jneg :: "jsnum \<Rightarrow> jsnum" where
  "jneg NaN = NaN"
| "jneg NegInf = PosInf"
| "jneg (Fin x) = Fin (- x)"
| "jneg PosInf = NegInf"

fun jadd :: "jsnum \<Rightarrow> jsnum \<Rightarrow> jsnum" where
  "jadd NaN b = NaN"
| "jadd a NaN = NaN"
| "jadd (Fin x) (Fin y) = Fin (x + y)"
| "jadd (Fin x) b = b"
| "jadd a (Fin y) = a"
| "jadd PosInf PosInf = PosInf"
| "jadd NegInf NegInf = NegInf"
| "jadd PosInf NegInf = NaN"
| "jadd NegInf PosInf = NaN"

definition jsub :: "jsnum \<Rightarrow> jsnum \<Rightarrow> jsnum" where
  "jsub a b = jadd a (jneg b)"

text \<open>The sign of a number that is not NaN.\<close>

fun jsgn :: "jsnum \<Rightarrow> int" where
  "jsgn NaN = 0"
| "jsgn NegInf = - 1"
| "jsgn (Fin x) = (if x < 0 then - 1 else if x = 0 then 0 else 1)"
| "jsgn PosInf = 1"

fun jmul :: "jsnum \<Rightarrow> jsnum \<Rightarrow> jsnum" where
  "jmul NaN b = NaN"
| "jmul a NaN = NaN"
| "jmul (Fin x) (Fin y) = Fin (x * y)"
| "jmul a b =
     (if jsgn a * jsgn b = 0 then NaN else if 0 < jsgn a * jsgn b then PosInf else NegInf)"

text \<open>
  Division; the program divides by the positive constants 25 and 20 only, and a zero
  divisor is read as the positive zero.
\<close>

fun jdiv :: "jsnum \<Rightarrow> jsnum \<Rightarrow> jsnum" where
  "jdiv NaN b = NaN"
| "jdiv a NaN = NaN"
| "jdiv (Fin x) (Fin y) =
     (if y = 0 then (if x = 0 then NaN else if 0 < x then PosInf else NegInf)
      else Fin (x / y))"
| "jdiv (Fin x) b = Fin 0"
| "jdiv a (Fin y) = (if (a = PosInf) = (0 \<le> y) then PosInf else NegInf)"
| "jdiv a b = NaN"

text \<open>\<open>Math.max\<close> and \<open>Math.min\<close> of two numbers: NaN if either is.\<close>

definition jmax :: "jsnum \<Rightarrow> jsnum \<Rightarrow> jsnum" where
  "jmax a b = (if a = NaN \<or> b = NaN then NaN else if jlt a b then b else a)"

definition jmin :: "jsnum \<Rightarrow> jsnum \<Rightarrow> jsnum" where
  "jmin a b = (if a = NaN \<or> b = NaN then NaN else if jlt b a then b else a)"

text \<open>
  \<open>Math.max(...xs)\<close>: minus infinity for no argument, NaN if any argument is NaN,
  the largest argument otherwise.
\<close>

definition Math_max :: "jsnum list \<Rightarrow> jsnum" where
  "Math_max xs = foldl jmax NegInf xs"

text \<open>\<open>Math.round\<close> rounds to the nearest integer, a half upwards.\<close>

fun Math_round :: "jsnum \<Rightarrow> jsnum" where
  "Math_round (Fin x) = Fin (of_int \<lfloor>x + 1 / 2\<rfloor>)"
| "Math_round a = a"

fun Math_floor :: "jsnum \<Rightarrow> jsnum" where
  "Math_floor (Fin x) = Fin (of_int \<lfloor>x\<rfloor>)"
| "Math_floor a = a"

text \<open>
  The string of a number, as a template literal and \<open>String\<close> give it. A number of a
  message is named by the decimal form that prints it (the shortest one that denotes the
  double), so the digits of the real are the digits printed: an integer below \<open>10^21\<close>
  as its digits, a fraction with its digits after the point, and the exponent form from
  \<open>10^21\<close> on and below \<open>10^-6\<close>. A double has at most 1074 digits after the point; a
  real whose decimal form does not end is no double.
\<close>

fun show_nat :: "nat \<Rightarrow> string" where
  "show_nat n =
     (if n < 10 then [''0123456789'' ! n]
      else show_nat (n div 10) @ [''0123456789'' ! (n mod 10)])"

declare show_nat.simps [simp del]

text \<open>The digits after the point of a number in \<open>[0, 1)\<close>, at most \<open>k\<close> of them.\<close>

fun frac_digits :: "nat \<Rightarrow> real \<Rightarrow> string" where
  "frac_digits k y =
     (if k = 0 \<or> y = 0 then []
      else (''0123456789'' ! nat \<lfloor>10 * y\<rfloor>) #
        frac_digits (k - 1) (10 * y - of_int \<lfloor>10 * y\<rfloor>))"

declare frac_digits.simps [simp del]

definition strip_zeros :: "string \<Rightarrow> string" where
  "strip_zeros s = rev (dropWhile (\<lambda>c. c = CHR ''0'') (rev s))"

text \<open>The exponent form: the first digit, the others after a point, and the exponent.\<close>

definition exp_form :: "string \<Rightarrow> string \<Rightarrow> nat \<Rightarrow> string" where
  "exp_form s sign e =
     (case s of
        [] \<Rightarrow> []
      | c # rest \<Rightarrow> c # (if rest = [] then [] else CHR ''.'' # rest)) @ ''e'' @ sign @ show_nat e"

definition pos_to_string :: "real \<Rightarrow> string" where
  "pos_to_string x =
     (let ip = nat \<lfloor>x\<rfloor>;
          ds = show_nat ip;
          fs = frac_digits 1100 (x - of_int \<lfloor>x\<rfloor>);
          z = length (takeWhile (\<lambda>c. c = CHR ''0'') fs)
      in if ip \<noteq> 0 then
           (if length ds \<le> 21 then (if fs = [] then ds else ds @ ''.'' @ fs)
            else exp_form (strip_zeros (ds @ fs)) ''+'' (length ds - 1))
         else if z \<le> 5 then ''0.'' @ fs
         else exp_form (drop z fs) ''-'' (z + 1))"

fun NumberToString :: "jsnum \<Rightarrow> string" where
  "NumberToString NaN = ''NaN''"
| "NumberToString PosInf = ''Infinity''"
| "NumberToString NegInf = ''-Infinity''"
| "NumberToString (Fin x) =
     (if x = 0 then ''0'' else if x < 0 then ''-'' @ pos_to_string (- x) else pos_to_string x)"

declare NumberToString.simps(4) [simp del]

section \<open>The discretizer\<close>

text \<open>
  An observation \<open>{ hp, ammo, dist, inZone, hasKnife }\<close>; a field the message does not
  carry is \<open>JUndefined\<close>.
\<close>

record observation =
  hp :: jsval
  ammo :: jsval
  dist :: jsval
  inZone :: jsval
  hasKnife :: jsval

definition empty_obs :: observation where
  "empty_obs = \<lparr>hp = JUndefined, ammo = JUndefined, dist = JUndefined,
     inZone = JUndefined, hasKnife = JUndefined\<rparr>"

text \<open>
  The local constants of \<open>discretize\<close>, one definition each, in the order of the source:
  \<^verbatim>\<open>
  const hp = Math.max(0, Math.min(100, Math.round(obs.hp || 0)));
  const hpBucket = Math.floor(hp / 25);
  const ammoBucket = (obs.ammo && obs.ammo > 0) ? 1 : 0;
  const dist = Math.max(0, Math.round(obs.dist || 999));
  const distBucket = Math.min(4, Math.floor(dist / 20));
  const zone = obs.inZone ? 1 : 0;
  const knife = obs.hasKnife ? 1 : 0;
  \<close>
\<close>

definition hp_val :: "observation \<Rightarrow> jsnum" where
  "hp_val ob =
     jmax (Fin 0) (jmin (Fin 100) (Math_round (ToNumber (js_or (hp ob) (JNum (Fin 0))))))"

definition hpBucket :: "observation \<Rightarrow> jsnum" where
  "hpBucket ob = Math_floor (jdiv (hp_val ob) (Fin 25))"

definition ammoBucket :: "observation \<Rightarrow> jsnum" where
  "ammoBucket ob =
     (if truthy (ammo ob) \<and> jgt (ToNumber (ammo ob)) (Fin 0) then Fin 1 else Fin 0)"

definition dist_val :: "observation \<Rightarrow> jsnum" where
  "dist_val ob = jmax (Fin 0) (Math_round (ToNumber (js_or (dist ob) (JNum (Fin 999)))))"

definition distBucket :: "observation \<Rightarrow> jsnum" where
  "distBucket ob = jmin (Fin 4) (Math_floor (jdiv (dist_val ob) (Fin 20)))"

definition zone :: "observation \<Rightarrow> jsnum" where
  "zone ob = (if truthy (inZone ob) then Fin 1 else Fin 0)"

definition knife :: "observation \<Rightarrow> jsnum" where
  "knife ob = (if truthy (hasKnife ob) then Fin 1 else Fin 0)"

definition discretize :: "observation \<Rightarrow> string" where
  "discretize ob =
     NumberToString (hpBucket ob) @ ''|'' @ NumberToString (ammoBucket ob) @ ''|'' @
     NumberToString (distBucket ob) @ ''|'' @ NumberToString (zone ob) @ ''|'' @
     NumberToString (knife ob)"

text \<open>
  The keys of the value table are the strings \<open>discretize\<close> returns. Every such string
  contains the separator (lemma \<open>discretize_is_stateKey\<close>), so it names no property that
  a plain object inherits; the value table, a plain object that the program reads and
  writes at such keys only, is therefore the map of its own properties.
\<close>

definition is_stateKey :: "string \<Rightarrow> bool" where
  "is_stateKey k = (CHR ''|'' \<in> set k)"

section \<open>The value table, the policy and the learner\<close>

definition ACTIONS :: "string list" where
  "ACTIONS = [''MOVE_TO_PLAYER'', ''MOVE_RANDOM'', ''SHOOT'', ''PICK_CRATE'', ''RETREAT'', ''IDLE'']"

text \<open>
  The process-wide variables: \<open>qtable\<close> (state key to row of action values), \<open>EPSILON\<close>,
  and the constants \<open>ALPHA\<close> and \<open>GAMMA\<close>, which the environment may set.
\<close>

record server =
  qtable :: "string \<rightharpoonup> jsnum list"
  EPSILON :: jsnum
  ALPHA :: jsnum
  GAMMA :: jsnum

text \<open>
  \<open>parseFloat(process.env.X) || d\<close>: the first argument is what \<open>parseFloat\<close> returned
  (NaN for a variable that is unset or not a number); zero and NaN give the default.
\<close>

definition env_or :: "jsnum \<Rightarrow> real \<Rightarrow> jsnum" where
  "env_or p d = (if truthy_num p then p else Fin d)"

definition init_server :: "jsnum \<Rightarrow> jsnum \<Rightarrow> jsnum \<Rightarrow> (string \<rightharpoonup> jsnum list) \<Rightarrow> server" where
  "init_server pa pg pe tbl =
     \<lparr>qtable = tbl, EPSILON = env_or pe (25 / 100), ALPHA = env_or pa (12 / 100),
      GAMMA = env_or pg (96 / 100)\<rparr>"

text \<open>\<open>if (!qtable[key]) qtable[key] = Array(ACTIONS.length).fill(0)\<close>; a row is an
  array, which is truthy whatever it holds.\<close>

definition ensureState :: "server \<Rightarrow> string \<Rightarrow> server" where
  "ensureState srv key =
     (case qtable srv key of
        None \<Rightarrow> srv\<lparr>qtable := (qtable srv)(key \<mapsto> replicate (length ACTIONS) (Fin 0))\<rparr>
      | Some row \<Rightarrow> srv)"

text \<open>
  The scan of \<open>chooseAction\<close>:
  \<^verbatim>\<open>for (let i = 0; i < qvals.length; i++) {
    if (qvals[i] > bestV) { bestV = qvals[i]; bestIdx = i; } }\<close>
\<close>

function best_loop :: "jsnum list \<Rightarrow> nat \<Rightarrow> nat \<Rightarrow> jsnum \<Rightarrow> nat" where
  "best_loop qvals i bestIdx bestV =
     (if i < length qvals then
        (if jgt (qvals ! i) bestV then best_loop qvals (i + 1) i (qvals ! i)
         else best_loop qvals (i + 1) bestIdx bestV)
      else bestIdx)"
  by pat_completeness auto
termination
  by (relation "measure (\<lambda>(qvals, i, bestIdx, bestV). length qvals - i)") auto

declare best_loop.simps [simp del]

text \<open>
  \<open>chooseAction\<close>; \<open>u1\<close> and \<open>u2\<close> are the values of the two calls of \<open>Math.random()\<close>,
  each in \<open>[0, 1)\<close>. The row is there once \<open>ensureState\<close> has run (lemma
  \<open>ensureState_row\<close>), so the last branch is never taken.
\<close>

definition chooseAction :: "real \<Rightarrow> real \<Rightarrow> server \<Rightarrow> string \<Rightarrow> nat \<times> server" where
  "chooseAction u1 u2 srv key =
     (let srv1 = ensureState srv key in
      if jlt (Fin u1) (EPSILON srv1) then (nat \<lfloor>u2 * real (length ACTIONS)\<rfloor>, srv1)
      else (case qtable srv1 key of
              Some qvals \<Rightarrow> (best_loop qvals 0 0 NegInf, srv1)
            | None \<Rightarrow> (0, srv1)))"

text \<open>
  Reading and writing an array by index. Past the end a read gives \<open>undefined\<close> and a
  write extends the array, leaving holes that read as \<open>undefined\<close>; every use the program
  makes of an element turns \<open>undefined\<close> into NaN, which is what the model stores.
\<close>

definition row_get :: "jsnum list \<Rightarrow> nat \<Rightarrow> jsnum" where
  "row_get row i = (if i < length row then row ! i else NaN)"

definition row_set :: "jsnum list \<Rightarrow> nat \<Rightarrow> jsnum \<Rightarrow> jsnum list" where
  "row_set row i v =
     (if i < length row then row[i := v] else row @ replicate (i - length row) NaN @ [v])"

text \<open>
  \<^verbatim>\<open>function updateQ(s, a, r, sNext) {
    ensureState(s); ensureState(sNext);
    const qsa = qtable[s][a];
    const maxNext = Math.max(...qtable[sNext]);
    qtable[s][a] = qsa + ALPHA * (r + GAMMA * maxNext - qsa); }\<close>
  Both rows are there after the two calls of \<open>ensureState\<close>, so the \<open>None\<close> branches are
  never taken.
\<close>

definition updateQ :: "server \<Rightarrow> string \<Rightarrow> nat \<Rightarrow> jsnum \<Rightarrow> string \<Rightarrow> server" where
  "updateQ srv s a r sNext =
     (let srv1 = ensureState (ensureState srv s) sNext in
      case (qtable srv1 s, qtable srv1 sNext) of
        (Some row, Some rowNext) \<Rightarrow>
          (let qsa = row_get row a;
               maxNext = Math_max rowNext
           in srv1\<lparr>qtable := (qtable srv1)
                (s \<mapsto> row_set row a
                   (jadd qsa (jmul (ALPHA srv1) (jsub (jadd r (jmul (GAMMA srv1) maxNext)) qsa))))\<rparr>)
      | _ \<Rightarrow> srv1)"

subsection \<open>The periodic step, with the rounding of doubles\<close>

text \<open>
  The periodic step multiplies the rate by 0.9995 again and again, and what the rate is
  after some steps depends on how each product is rounded. So this part of the model
  keeps the doubles: a finite number is the real value of a double, a decimal literal
  denotes the double nearest to it, and a product is rounded to the nearest double, a tie
  to the even one (binary64: 53 significant bits, exponents from -1022 to 1023, a result
  of magnitude \<open>2^1024\<close> or more is infinite).
\<close>

definition pow2 :: "int \<Rightarrow> real" where
  "pow2 k = (if 0 \<le> k then 2 ^ nat k else 1 / 2 ^ nat (- k))"

text \<open>The binary exponent of a positive number: \<open>pow2 (expo x) \<le> x < 2 * pow2 (expo x)\<close>.\<close>

function expo_hi :: "real \<Rightarrow> int" where
  "expo_hi x = (if 2 \<le> x then expo_hi (x / 2) + 1 else 0)"
  by pat_completeness auto
termination
  by (relation "measure (\<lambda>x. nat \<lfloor>x\<rfloor>)") (auto simp add: floor_less_iff, linarith)

function expo_lo :: "real \<Rightarrow> int" where
  "expo_lo x = (if 0 < x \<and> x < 1 then expo_lo (2 * x) - 1 else 0)"
  by pat_completeness auto
termination
proof (relation "measure (\<lambda>x. nat \<lceil>1 / x\<rceil>)")
  show "wf (measure (\<lambda>x::real. nat \<lceil>1 / x\<rceil>))" by simp
next
  fix x :: real
  assume x: "0 < x \<and> x < 1"
  define y where "y = 1 / x"
  have y: "1 < y" using x by (simp add: y_def)
  then have "2 \<le> \<lceil>y\<rceil>" by linarith
  then have "(2::real) \<le> of_int \<lceil>y\<rceil>" by linarith
  moreover have "y \<le> of_int \<lceil>y\<rceil>" by simp
  ultimately have "y / 2 \<le> of_int \<lceil>y\<rceil> - 1" by linarith
  then have "y / 2 \<le> of_int (\<lceil>y\<rceil> - 1)" by simp
  then have "\<lceil>y / 2\<rceil> < \<lceil>y\<rceil>" by (simp add: ceiling_less_iff)
  moreover have "y / 2 = 1 / (2 * x)" by (simp add: y_def)
  ultimately have less: "\<lceil>1 / (2 * x)\<rceil> < \<lceil>1 / x\<rceil>" by (simp only: y_def)
  have "0 < \<lceil>y\<rceil>" using y by linarith
  then have "0 < \<lceil>1 / x\<rceil>" by (simp only: y_def)
  with less show "(2 * x, x) \<in> measure (\<lambda>x. nat \<lceil>1 / x\<rceil>)" by simp
qed

declare expo_hi.simps [simp del] expo_lo.simps [simp del]

definition expo :: "real \<Rightarrow> int" where
  "expo x = (if 1 \<le> x then expo_hi x else expo_lo x)"

text \<open>Rounding to the nearest integer, a tie to the even one.\<close>

definition rne :: "real \<Rightarrow> int" where
  "rne y =
     (if y - of_int \<lfloor>y\<rfloor> < 1 / 2 then \<lfloor>y\<rfloor>
      else if 1 / 2 < y - of_int \<lfloor>y\<rfloor> then \<lfloor>y\<rfloor> + 1
      else if even \<lfloor>y\<rfloor> then \<lfloor>y\<rfloor> else \<lfloor>y\<rfloor> + 1)"

text \<open>
  A positive number rounded to 53 significant bits; below \<open>2^-1022\<close> the spacing stays
  that of the smallest exponent.
\<close>

definition round_pos :: "real \<Rightarrow> real" where
  "round_pos a =
     of_int (rne (a / pow2 (max (expo a) (- 1022) - 52))) * pow2 (max (expo a) (- 1022) - 52)"

definition round64 :: "real \<Rightarrow> jsnum" where
  "round64 x =
     (if x = 0 then Fin 0
      else if pow2 1024 \<le> round_pos \<bar>x\<bar> then (if 0 < x then PosInf else NegInf)
      else Fin (if 0 < x then round_pos \<bar>x\<bar> else - round_pos \<bar>x\<bar>))"

text \<open>The relative error of a rounding is at most \<open>2^-53\<close>.\<close>

definition unit_roundoff :: real where
  "unit_roundoff = 1 / 2 ^ 53"

text \<open>The double a decimal literal denotes, and the product of two doubles.\<close>

definition lit :: "real \<Rightarrow> jsnum" where
  "lit x = round64 x"

definition mul64 :: "jsnum \<Rightarrow> jsnum \<Rightarrow> jsnum" where
  "mul64 a b = (case (a, b) of (Fin x, Fin y) \<Rightarrow> round64 (x * y) | _ \<Rightarrow> jmul a b)"

text \<open>
  The doubles that the literals 0.01 and 0.9995 denote (lemmas \<open>lit_floor_f64\<close> and
  \<open>lit_decay_d64\<close>).
\<close>

definition f64 :: real where
  "f64 = 5764607523034235 / 576460752303423488"

definition d64 :: real where
  "d64 = 4501347827556811 / 4503599627370496"

text \<open>The periodic step: \<open>EPSILON = Math.max(0.01, EPSILON * 0.9995)\<close>.\<close>

definition tick :: "server \<Rightarrow> server" where
  "tick srv =
     srv\<lparr>EPSILON := jmax (lit (1 / 100)) (mul64 (EPSILON srv) (lit (9995 / 10000)))\<rparr>"

fun ticks :: "nat \<Rightarrow> server \<Rightarrow> server" where
  "ticks 0 srv = srv"
| "ticks (Suc n) srv = tick (ticks n srv)"

section \<open>Messages and the per-connection record of decisions\<close>

text \<open>
  The bot identifier of a message is a string or a scalar; \<open>String(x)\<close> of a number is
  the string \<open>NumberToString\<close> gives.
\<close>

datatype jsid = IdStr string | IdVal jsval

fun truthy_id :: "jsid \<Rightarrow> bool" where
  "truthy_id (IdStr s) = (s \<noteq> [])"
| "truthy_id (IdVal v) = truthy v"

fun String_of :: "jsid \<Rightarrow> string" where
  "String_of (IdStr s) = s"
| "String_of (IdVal JUndefined) = ''undefined''"
| "String_of (IdVal JNull) = ''null''"
| "String_of (IdVal (JBool b)) = (if b then ''true'' else ''false'')"
| "String_of (IdVal (JNum n)) = NumberToString n"

text \<open>\<open>String(msg.botId || 'unknown')\<close>\<close>

definition botId_of :: "jsid \<Rightarrow> string" where
  "botId_of v = String_of (if truthy_id v then v else IdStr ''unknown'')"

text \<open>
  A parsed message, an object. \<open>mtype\<close> is its \<open>type\<close> field; a type that is absent or
  not a string is any string that names no branch of the handler. \<open>obs\<close> and \<open>nextObs\<close>
  are \<open>None\<close> for a field that is absent or falsy, which \<open>msg.obs || {}\<close> replaces by
  the empty object, and for a value that is no object, which has none of the five fields.
\<close>

record message =
  mtype :: string
  botId :: jsid
  obs :: "observation option"
  reward :: jsval
  nextObs :: "observation option"

text \<open>The entry \<open>{ state, actionIdx, lastObsAt }\<close> stored for a bot.\<close>

record pending =
  state :: string
  actionIdx :: nat
  lastObsAt :: int

text \<open>
  \<open>ws._botState\<close> is a plain object used as a dictionary whose keys are bot identifiers,
  strings the client chooses. A plain object has own properties and a prototype, and
  the key \<open>__proto__\<close> is not a property of its own: reading it gives the prototype,
  assigning an object to it replaces the prototype, and \<open>delete\<close> of it removes nothing.
  \<open>proto\<close> is \<open>None\<close> while the prototype is the initial one and \<open>Some e\<close> once the
  entry \<open>e\<close> has been assigned to \<open>__proto__\<close>.
\<close>

record botState =
  own :: "string \<rightharpoonup> pending"
  proto :: "pending option"

definition new_botState :: botState where
  "new_botState = \<lparr>own = Map.empty, proto = None\<rparr>"

text \<open>
  \<open>const rec = ws._botState[botId]\<close> followed by the test
  \<open>rec && typeof rec.actionIdx !== 'undefined'\<close>: the result is \<open>Some e\<close> when the
  test passes. Everything else a key can inherit (a method of the initial prototype, a
  field of an entry that has become the prototype) is a function, a string or a number,
  which has no \<open>actionIdx\<close>, so the test fails as it does for a key that is not there.
\<close>

definition botState_get :: "botState \<Rightarrow> string \<Rightarrow> pending option" where
  "botState_get bs k = (if k = ''__proto__'' then proto bs else own bs k)"

text \<open>\<open>ws._botState[botId] = e\<close>\<close>

definition botState_set :: "botState \<Rightarrow> string \<Rightarrow> pending \<Rightarrow> botState" where
  "botState_set bs k e =
     (if k = ''__proto__'' then bs\<lparr>proto := Some e\<rparr> else bs\<lparr>own := (own bs)(k \<mapsto> e)\<rparr>)"

text \<open>\<open>delete ws._botState[botId]\<close>\<close>

definition botState_delete :: "botState \<Rightarrow> string \<Rightarrow> botState" where
  "botState_delete bs k = (if k = ''__proto__'' then bs else bs\<lparr>own := (own bs)(k := None)\<rparr>)"

text \<open>
  What the handler sends back: the action message (the action name is absent when the
  index is past the end of \<open>ACTIONS\<close>), the acknowledgement of a save, or the pong.
\<close>

datatype reply = ActionMsg string "string option" | OkSaved | PongMsg

definition action_name :: "nat \<Rightarrow> string option" where
  "action_name i = (if i < length ACTIONS then Some (ACTIONS ! i) else None)"

text \<open>\<open>Number(msg.reward || 0)\<close>\<close>

definition reward_of :: "jsval \<Rightarrow> jsnum" where
  "reward_of v = ToNumber (js_or v (JNum (Fin 0)))"

definition obs_or_empty :: "observation option \<Rightarrow> observation" where
  "obs_or_empty x = (case x of Some ob \<Rightarrow> ob | None \<Rightarrow> empty_obs)"

text \<open>
  The handler of a parsed message on one connection. \<open>u1\<close> and \<open>u2\<close> are the random
  numbers \<open>chooseAction\<close> draws and \<open>now\<close> is \<open>Date.now()\<close>. The state is the process-wide
  variables and the connection's \<open>_botState\<close>; the file a save writes is not part of it.
\<close>

definition on_obs :: "real \<Rightarrow> real \<Rightarrow> int \<Rightarrow> message \<Rightarrow> server \<times> botState
    \<Rightarrow> server \<times> botState \<times> reply option" where
  "on_obs u1 u2 now msg st =
     (let bid = botId_of (botId msg);
          ob = obs_or_empty (obs msg);
          stateKey = discretize ob;
          (idx, srv1) = chooseAction u1 u2 (fst st) stateKey
      in (srv1,
          botState_set (snd st) bid \<lparr>state = stateKey, actionIdx = idx, lastObsAt = now\<rparr>,
          Some (ActionMsg bid (action_name idx))))"

definition on_reward :: "message \<Rightarrow> server \<times> botState \<Rightarrow> server \<times> botState \<times> reply option" where
  "on_reward msg st =
     (let bid = botId_of (botId msg);
          r = reward_of (reward msg);
          nob = obs_or_empty (nextObs msg)
      in case botState_get (snd st) bid of
           Some e \<Rightarrow>
             (let nextKey = discretize nob
              in (updateQ (fst st) (state e) (actionIdx e) r nextKey,
                  botState_delete (snd st) bid, None))
         | None \<Rightarrow> (fst st, snd st, None))"

definition on_message :: "real \<Rightarrow> real \<Rightarrow> int \<Rightarrow> message \<Rightarrow> server \<times> botState
    \<Rightarrow> server \<times> botState \<times> reply option" where
  "on_message u1 u2 now msg st =
     (if mtype msg = ''obs'' then on_obs u1 u2 now msg st
      else if mtype msg = ''reward'' then on_reward msg st
      else if mtype msg = ''save'' then (fst st, snd st, Some OkSaved)
      else if mtype msg = ''ping'' then (fst st, snd st, Some PongMsg)
      else (fst st, snd st, None))"

section \<open>Notions the properties are stated with\<close>

text \<open>The row of a key once \<open>ensureState\<close> has run: the stored row, or the new row of zeros.\<close>

definition row_or_zero :: "server \<Rightarrow> string \<Rightarrow> jsnum list" where
  "row_or_zero srv k =
     (case qtable srv k of Some row \<Rightarrow> row | None \<Rightarrow> replicate (length ACTIONS) (Fin 0))"

text \<open>Every stored row has one value for each action.\<close>

definition wf_table :: "server \<Rightarrow> bool" where
  "wf_table srv = (\<forall>k row. qtable srv k = Some row \<longrightarrow> length row = length ACTIONS)"

text \<open>The server as it starts with no environment variable set and no saved table.\<close>

definition default_server :: server where
  "default_server = init_server NaN NaN NaN Map.empty"

text \<open>
  The invariant of the scan of \<open>chooseAction\<close> before step \<open>i\<close>, and what holds of the
  index it returns: nothing seen compares greater than \<open>bestV\<close>, and \<open>bestIdx\<close> is either
  still the initial 0 or the first place where \<open>bestV\<close> stands.
\<close>

definition best_inv :: "jsnum list \<Rightarrow> nat \<Rightarrow> nat \<Rightarrow> jsnum \<Rightarrow> bool" where
  "best_inv qvals i bestIdx bestV \<longleftrightarrow>
     (\<forall>j<i. \<not> jgt (qvals ! j) bestV) \<and>
     ((bestIdx = 0 \<and> bestV = NegInf) \<or>
      (bestIdx < i \<and> qvals ! bestIdx = bestV \<and> (\<forall>j<bestIdx. qvals ! j \<noteq> bestV)))"

definition best_post :: "jsnum list \<Rightarrow> nat \<Rightarrow> bool" where
  "best_post qvals b \<longleftrightarrow>
     (b = 0 \<and> (\<forall>j<length qvals. \<not> jgt (qvals ! j) NegInf)) \<or>
     (b < length qvals \<and> (\<forall>j<length qvals. \<not> jgt (qvals ! j) (qvals ! b)) \<and>
      (\<forall>j<b. qvals ! j \<noteq> qvals ! b))"

text \<open>
  What holds of every decision a connection keeps: its action index is an index of
  \<open>ACTIONS\<close> and its state is a state key.
\<close>

definition conn_inv :: "botState \<Rightarrow> bool" where
  "conn_inv bs \<longleftrightarrow>
     (\<forall>k e. botState_get bs k = Some e \<longrightarrow>
        actionIdx e < length ACTIONS \<and> is_stateKey (state e))"

text \<open>
  Concrete inputs for the examples: the observation and key of the end-to-end scenario,
  a table with one row, an observation message and a reward message for a bot, and a run
  of messages from a state with the random numbers 1/2 (above the initial rate 0.25, so
  the policy exploits) and the clock at 0.
\<close>

definition demo_obs :: observation where
  "demo_obs = \<lparr>hp = JNum (Fin 80), ammo = JNum (Fin 0), dist = JNum (Fin 5),
     inZone = JBool True, hasKnife = JBool False\<rparr>"

definition demo_key :: string where
  "demo_key = ''3|0|0|1|0''"

definition demo_server :: server where
  "demo_server = default_server\<lparr>qtable := [demo_key \<mapsto> [Fin 1, Fin 3, Fin 3, Fin 0, Fin 2, Fin 0]]\<rparr>"


definition obs_msg :: "jsid \<Rightarrow> message" where
  "obs_msg b = \<lparr>mtype = ''obs'', botId = b, obs = Some demo_obs, reward = JUndefined,
     nextObs = None\<rparr>"

definition reward_msg :: "jsid \<Rightarrow> jsval \<Rightarrow> message" where
  "reward_msg b r = \<lparr>mtype = ''reward'', botId = b, obs = None, reward = r,
     nextObs = Some demo_obs\<rparr>"

fun run_msgs :: "message list \<Rightarrow> server \<times> botState \<Rightarrow> server \<times> botState" where
  "run_msgs [] st = st"
| "run_msgs (m # ms) st =
     (case on_message (1 / 2) (1 / 2) 0 m st of (srv, bs, rep) \<Rightarrow> run_msgs ms (srv, bs))"

section \<open>Facts about the arithmetic\<close>

text \<open>The strings of some numbers: the buckets, a fraction, and the exponent forms.\<close>

lemmas number_string_defs = NumberToString.simps(4) pos_to_string_def show_nat.simps
  frac_digits.simps strip_zeros_def exp_form_def

lemma NumberToString_small [simp]:
  "NumberToString (Fin 0) = ''0''" "NumberToString (Fin 1) = ''1''"
  "NumberToString (Fin 2) = ''2''" "NumberToString (Fin 3) = ''3''"
  "NumberToString (Fin 4) = ''4''"
  by (simp_all add: number_string_defs)

lemma NumberToString_examples:
  "NumberToString (Fin (15 / 10)) = ''1.5''"
  "NumberToString (Fin (- 3)) = ''-3''"
  "NumberToString (Fin (1 / 1000000)) = ''0.000001''"
  "NumberToString (Fin (1 / 10000000)) = ''1e-7''"
  "NumberToString (Fin (10 ^ 20)) = ''100000000000000000000''"
  "NumberToString (Fin (10 ^ 21)) = ''1e+21''"
  "NumberToString (Fin (15 * 10 ^ 20)) = ''1.5e+21''"
  by (simp_all add: number_string_defs)

lemma jmax_Fin [simp]: "jmax (Fin a) (Fin b) = Fin (max a b)"
  by (simp add: jmax_def max_def)

lemma jmin_Fin [simp]: "jmin (Fin a) (Fin b) = Fin (min a b)"
  by (simp add: jmin_def min_def)

lemma jmax_floor_ge: "a \<noteq> NaN \<Longrightarrow> jmax (Fin f) a \<noteq> NaN \<and> \<not> jlt (jmax (Fin f) a) (Fin f)"
  by (cases a) (simp_all add: jmax_def)

lemma jmul_Fin_pos_NaN: "a \<noteq> NaN \<Longrightarrow> 0 < d \<Longrightarrow> jmul a (Fin d) \<noteq> NaN"
  by (cases a) simp_all

lemma jgt_chain: "\<not> jgt x b \<Longrightarrow> jgt y b \<Longrightarrow> \<not> jgt x y"
  by (cases x; cases b; cases y) (simp_all add: jgt_def)

lemma jgt_irrefl: "\<not> jgt x x"
  by (cases x) (simp_all add: jgt_def)

lemma jgt_NegInf_iff: "jgt x NegInf \<longleftrightarrow> x \<noteq> NaN \<and> x \<noteq> NegInf"
  by (cases x) (simp_all add: jgt_def)

lemma jgt_not_NaN: "jgt x y \<Longrightarrow> x \<noteq> NaN \<and> y \<noteq> NaN"
  by (cases x; cases y) (simp_all add: jgt_def)

lemma jgt_NegInf_left [simp]: "\<not> jgt NegInf a"
  by (cases a) (simp_all add: jgt_def)

lemma jgt_antisym: "a \<noteq> NaN \<Longrightarrow> b \<noteq> NaN \<Longrightarrow> \<not> jgt a b \<Longrightarrow> \<not> jgt b a \<Longrightarrow> a = b"
  by (cases a; cases b) (simp_all add: jgt_def)

lemma jgt_trans_le: "\<not> jgt x m \<Longrightarrow> \<not> jgt m m' \<Longrightarrow> m \<noteq> NaN \<Longrightarrow> \<not> jgt x m'"
  by (cases x; cases m; cases m') (simp_all add: jgt_def)

lemma jmax_cases:
  "a \<noteq> NaN \<Longrightarrow> b \<noteq> NaN \<Longrightarrow>
   jmax a b \<noteq> NaN \<and> (jmax a b = a \<or> jmax a b = b) \<and>
   \<not> jgt a (jmax a b) \<and> \<not> jgt b (jmax a b)"
  by (cases a; cases b) (simp_all add: jmax_def jgt_def)

text \<open>\<open>Math.max\<close> of numbers that are not NaN is their largest, or minus infinity.\<close>

lemma foldl_jmax:
  "NaN \<notin> set xs \<Longrightarrow> acc \<noteq> NaN \<Longrightarrow>
   foldl jmax acc xs \<noteq> NaN \<and> (foldl jmax acc xs = acc \<or> foldl jmax acc xs \<in> set xs) \<and>
   \<not> jgt acc (foldl jmax acc xs) \<and> (\<forall>x\<in>set xs. \<not> jgt x (foldl jmax acc xs))"
proof (induction xs arbitrary: acc)
  case Nil
  then show ?case by (simp add: jgt_irrefl)
next
  case (Cons x xs)
  from Cons.prems have x: "x \<noteq> NaN" and xs: "NaN \<notin> set xs" by auto
  note m = jmax_cases [OF Cons.prems(2) x]
  from m have "jmax acc x \<noteq> NaN" by simp
  note ih = Cons.IH [OF xs this]
  let ?r = "foldl jmax (jmax acc x) xs"
  have "\<not> jgt acc ?r" using m ih jgt_trans_le by blast
  moreover have "\<not> jgt x ?r" using m ih jgt_trans_le by blast
  moreover have "?r = acc \<or> ?r \<in> set (x # xs)" using m ih by auto
  ultimately show ?case using ih by simp
qed

lemma Math_max_first:
  assumes "NaN \<notin> set qvals" "b < length qvals"
    and "\<forall>j<length qvals. \<not> jgt (qvals ! j) (qvals ! b)"
  shows "qvals ! b = Math_max qvals"
proof -
  let ?m = "Math_max qvals"
  have f: "?m \<noteq> NaN" "?m = NegInf \<or> ?m \<in> set qvals" "\<forall>x\<in>set qvals. \<not> jgt x ?m"
    using foldl_jmax [OF assms(1), of NegInf] by (simp_all add: Math_max_def)
  have b: "qvals ! b \<in> set qvals" using assms(2) by simp
  then have bn: "qvals ! b \<noteq> NaN" using assms(1) by metis
  have 1: "\<not> jgt (qvals ! b) ?m" using f(3) b by blast
  have 2: "\<not> jgt ?m (qvals ! b)"
  proof (cases "?m \<in> set qvals")
    case True
    then obtain j where "j < length qvals" "qvals ! j = ?m" by (auto simp add: in_set_conv_nth)
    then show ?thesis using assms(3) by metis
  next
    case False
    with f(2) have "?m = NegInf" by simp
    then show ?thesis by simp
  qed
  show ?thesis using jgt_antisym [OF bn f(1) 1 2] .
qed

text \<open>
  \<open>Math.max\<close> of a row: NaN if the row holds one, and otherwise the greatest entry.
\<close>

lemma jmax_NaN_left [simp]: "jmax NaN b = NaN"
  by (simp add: jmax_def)

lemma jmax_NaN_right [simp]: "jmax a NaN = NaN"
  by (simp add: jmax_def)






section \<open>Facts about the table\<close>

lemma ensureState_qtable:
  "qtable (ensureState srv k) = (qtable srv)(k \<mapsto> row_or_zero srv k)"
  by (auto simp add: ensureState_def row_or_zero_def split: option.splits)

lemma ensureState_fields [simp]:
  "EPSILON (ensureState srv k) = EPSILON srv"
  "ALPHA (ensureState srv k) = ALPHA srv"
  "GAMMA (ensureState srv k) = GAMMA srv"
  by (simp_all add: ensureState_def split: option.splits)

lemma ensureState_row: "qtable (ensureState srv k) k = Some (row_or_zero srv k)"
  by (simp add: ensureState_qtable)

lemma row_or_zero_ensureState: "row_or_zero (ensureState srv k) k' = row_or_zero srv k'"
  by (simp add: row_or_zero_def ensureState_qtable split: option.splits)

lemma wf_row_or_zero: "wf_table srv \<Longrightarrow> length (row_or_zero srv k) = length ACTIONS"
  by (auto simp add: wf_table_def row_or_zero_def split: option.splits)

lemma wf_ensureState: "wf_table srv \<Longrightarrow> wf_table (ensureState srv k)"
  unfolding wf_table_def
  by (auto simp add: ensureState_qtable row_or_zero_def split: option.splits if_splits)

lemma ensure2_qtable:
  "qtable (ensureState (ensureState srv s) sNext) =
     (qtable srv)(s \<mapsto> row_or_zero srv s, sNext \<mapsto> row_or_zero srv sNext)"
  by (simp add: ensureState_qtable row_or_zero_ensureState)

text \<open>\<open>updateQ\<close> with the two rows it reads made explicit.\<close>

lemma updateQ_unfold:
  "updateQ srv s a r sNext =
     (ensureState (ensureState srv s) sNext)\<lparr>qtable :=
        (qtable (ensureState (ensureState srv s) sNext))
          (s \<mapsto> row_set (row_or_zero srv s) a
             (jadd (row_get (row_or_zero srv s) a)
                (jmul (ALPHA srv)
                   (jsub (jadd r (jmul (GAMMA srv) (Math_max (row_or_zero srv sNext))))
                      (row_get (row_or_zero srv s) a)))))\<rparr>"
proof -
  let ?srv1 = "ensureState (ensureState srv s) sNext"
  have 1: "qtable ?srv1 s = Some (row_or_zero srv s)"
    by (simp add: ensure2_qtable)
  have 2: "qtable ?srv1 sNext = Some (row_or_zero srv sNext)"
    by (simp add: ensure2_qtable)
  show ?thesis
    unfolding updateQ_def Let_def 1 2 by simp
qed

section \<open>The scan for the best action\<close>

lemma best_loop_inv:
  "i \<le> length qvals \<Longrightarrow> best_inv qvals i bestIdx bestV \<Longrightarrow>
   best_post qvals (best_loop qvals i bestIdx bestV)"
proof (induction qvals i bestIdx bestV rule: best_loop.induct)
  case (1 qvals i bestIdx bestV)
  show ?case
  proof (cases "i < length qvals")
    case False
    then have res: "best_loop qvals i bestIdx bestV = bestIdx"
      by (simp add: best_loop.simps [of qvals i])
    from False "1.prems" have "i = length qvals" by simp
    with "1.prems"(2) show ?thesis
      unfolding res by (auto simp add: best_inv_def best_post_def)
  next
    case True
    show ?thesis
    proof (cases "jgt (qvals ! i) bestV")
      case gt: True
      have "best_inv qvals (i + 1) i (qvals ! i)"
        unfolding best_inv_def
      proof (intro conjI allI impI disjI2)
        fix j assume "j < i + 1"
        then consider "j < i" | "j = i" by linarith
        then show "\<not> jgt (qvals ! j) (qvals ! i)"
        proof cases
          case 1
          with "1.prems"(2) have "\<not> jgt (qvals ! j) bestV" by (simp add: best_inv_def)
          then show ?thesis using gt by (rule jgt_chain)
        next
          case 2
          then show ?thesis by (simp add: jgt_irrefl)
        qed
      next
        show "i < i + 1" by simp
      next
        show "qvals ! i = qvals ! i" ..
      next
        fix j assume "j < i"
        with "1.prems"(2) have "\<not> jgt (qvals ! j) bestV" by (simp add: best_inv_def)
        with gt show "qvals ! j \<noteq> qvals ! i" by auto
      qed
      with "1.IH"(1) [OF True gt] True gt show ?thesis
        by (simp add: best_loop.simps [of qvals i])
    next
      case ngt: False
      have "best_inv qvals (i + 1) bestIdx bestV"
        using "1.prems"(2) ngt unfolding best_inv_def
        by (auto simp add: less_Suc_eq)
      with "1.IH"(2) [OF True ngt] True ngt show ?thesis
        by (simp add: best_loop.simps [of qvals i])
    qed
  qed
qed

lemma best_loop_spec: "best_post qvals (best_loop qvals 0 0 NegInf)"
  by (rule best_loop_inv) (simp_all add: best_inv_def)

lemma best_post_max:
  assumes "best_post qvals b" "qvals \<noteq> []"
  shows "b < length qvals \<and> (\<forall>j<length qvals. \<not> jgt (qvals ! j) (qvals ! b)) \<and>
      (\<forall>j<b. qvals ! j \<noteq> qvals ! b)"
  using assms unfolding best_post_def
  apply (elim disjE conjE)
   apply (intro conjI)
     apply simp
    apply (metis jgt_NegInf_iff jgt_not_NaN length_greater_0_conv jgt_def jlt.simps)
   apply simp
  apply simp
  done

section \<open>The distance bucket\<close>

lemma dist_val_present:
  "dist ob = JNum (Fin d) \<Longrightarrow> d \<noteq> 0 \<Longrightarrow> dist_val ob = Fin (of_int (max 0 \<lfloor>d + 1 / 2\<rfloor>))"
  by (simp add: dist_val_def js_or_def)

lemma bucket_of_int:
  "jmin (Fin 4) (Math_floor (jdiv (Fin (of_int m)) (Fin 20))) = Fin (of_int (min 4 (m div 20)))"
proof -
  have "\<lfloor>real_of_int m / 20\<rfloor> = m div 20"
    using floor_divide_of_int_eq [of m 20, where ?'a = real] by simp
  then show ?thesis by simp
qed

text \<open>
  The parts of the rule that the code follows. A field that is absent gives the
  sentinel 999 and so the last bucket; a distance that is present and not zero is rounded,
  clamped at 0 and bucketed; so a negative distance gives bucket 0.
\<close>

lemma distBucket_absent: "dist ob = JUndefined \<Longrightarrow> dist_val ob = Fin 999 \<and> distBucket ob = Fin 4"
  by (simp add: distBucket_def dist_val_def js_or_def)

lemma distBucket_present:
  assumes "dist ob = JNum (Fin d)" "d \<noteq> 0"
  shows "distBucket ob = Fin (of_int (min 4 (max 0 \<lfloor>d + 1 / 2\<rfloor> div 20)))"
proof -
  have "distBucket ob =
      jmin (Fin 4) (Math_floor (jdiv (Fin (of_int (max 0 \<lfloor>d + 1 / 2\<rfloor>))) (Fin 20)))"
    unfolding distBucket_def dist_val_present [OF assms] ..
  then show ?thesis by (simp only: bucket_of_int)
qed

lemma distBucket_negative:
  assumes "dist ob = JNum (Fin d)" "d < 0"
  shows "distBucket ob = Fin 0"
proof -
  have "\<lfloor>d + 1 / 2\<rfloor> \<le> 0" using assms(2) by (simp add: floor_le_iff)
  then have "max 0 \<lfloor>d + 1 / 2\<rfloor> = 0" by simp
  then show ?thesis using distBucket_present [OF assms(1)] assms(2) by simp
qed

text \<open>
  Every bucket is a small integer, whatever the observation holds, so the key is five
  decimal digits separated by bars.
\<close>

lemma ToNumber_or_not_NaN: "truthy_num (Fin d) \<Longrightarrow> ToNumber (js_or v (JNum (Fin d))) \<noteq> NaN"
  by (cases v rule: truthy.cases) (auto simp add: js_or_def elim: truthy_num.elims)

lemma ToNumber_or0_not_NaN: "ToNumber (js_or v (JNum (Fin 0))) \<noteq> NaN"
  by (cases v rule: truthy.cases) (auto simp add: js_or_def elim: truthy_num.elims)

lemma hp_val_range: "\<exists>m. 0 \<le> m \<and> m \<le> 100 \<and> hp_val ob = Fin (of_int m)"
proof -
  obtain x where x: "ToNumber (js_or (hp ob) (JNum (Fin 0))) = x" by simp
  with ToNumber_or0_not_NaN have "x \<noteq> NaN" by metis
  then show ?thesis
  proof (cases x)
    case NegInf
    then have "hp_val ob = Fin (of_int 0)" by (simp add: hp_val_def x jmin_def jmax_def)
    then show ?thesis by (intro exI [of _ 0]) simp
  next
    case (Fin r)
    then have "hp_val ob = Fin (of_int (max 0 (min 100 \<lfloor>r + 1 / 2\<rfloor>)))"
      by (simp add: hp_val_def x)
    then show ?thesis by (intro exI [of _ "max 0 (min 100 \<lfloor>r + 1 / 2\<rfloor>)"]) simp
  next
    case PosInf
    then have "hp_val ob = Fin (of_int 100)" by (simp add: hp_val_def x jmin_def jmax_def)
    then show ?thesis by (intro exI [of _ 100]) simp
  qed simp
qed

lemma hpBucket_range: "\<exists>n\<le>4. hpBucket ob = Fin (real n)"
proof -
  from hp_val_range obtain m where m: "0 \<le> m" "m \<le> 100" "hp_val ob = Fin (of_int m)" by blast
  have "\<lfloor>real_of_int m / 25\<rfloor> = m div 25"
    using floor_divide_of_int_eq [of m 25, where ?'a = real] by simp
  then have "hpBucket ob = Fin (of_int (m div 25))" by (simp add: hpBucket_def m(3))
  moreover have "0 \<le> m div 25" "m div 25 \<le> 4" using m(1,2) by simp_all
  ultimately show ?thesis
    by (intro exI [of _ "nat (m div 25)"]) simp
qed

lemma distBucket_range: "\<exists>n\<le>4. distBucket ob = Fin (real n)"
proof -
  obtain x where x: "ToNumber (js_or (dist ob) (JNum (Fin 999))) = x" by simp
  with ToNumber_or_not_NaN [of 999] have "x \<noteq> NaN"
    by (metis truthy_num.simps(2) zero_neq_numeral)
  then show ?thesis
  proof (cases x)
    case NegInf
    then have "distBucket ob = Fin (real 0)"
      by (simp add: distBucket_def dist_val_def x jmin_def jmax_def)
    then show ?thesis by blast
  next
    case (Fin r)
    then have "dist_val ob = Fin (of_int (max 0 \<lfloor>r + 1 / 2\<rfloor>))"
      by (simp add: dist_val_def x)
    then have "distBucket ob = Fin (of_int (min 4 (max 0 \<lfloor>r + 1 / 2\<rfloor> div 20)))"
      unfolding distBucket_def by (simp only: bucket_of_int)
    moreover have "0 \<le> min 4 (max 0 \<lfloor>r + 1 / 2\<rfloor> div 20)" by simp
    ultimately show ?thesis
      by (intro exI [of _ "nat (min 4 (max 0 \<lfloor>r + 1 / 2\<rfloor> div 20))"]) simp
  next
    case PosInf
    then have "distBucket ob = Fin (real 4)"
      by (simp add: distBucket_def dist_val_def x jmin_def jmax_def)
    then show ?thesis by blast
  qed simp
qed

lemma flag_range:
  "ammoBucket ob \<in> {Fin 0, Fin 1}" "zone ob \<in> {Fin 0, Fin 1}" "knife ob \<in> {Fin 0, Fin 1}"
  by (simp_all add: ammoBucket_def zone_def knife_def)

lemmas bucket_range = hpBucket_range distBucket_range flag_range

text \<open>
  Claim C2. The distance bucket is 4 for an absent distance (sentinel 999), 0 for a
  negative one, and \<open>min(4, floor(round(d)/20))\<close> for a present distance \<open>d\<close>; in
  particular a present distance of 0 should give bucket 0. The code does not: \<open>0\<close> is
  falsy, so \<open>obs.dist || 999\<close> replaces a present distance of 0 by the sentinel, and an
  observation that differs from the empty one only by \<open>dist: 0\<close> lands in bucket 4 and gets
  the key of the farthest distance.
\<close>

theorem distBucket_of_zero:
  "dist_val (empty_obs\<lparr>dist := JNum (Fin 0)\<rparr>) = Fin 999 \<and>
   distBucket (empty_obs\<lparr>dist := JNum (Fin 0)\<rparr>) = Fin 4 \<and>
   discretize (empty_obs\<lparr>dist := JNum (Fin 0)\<rparr>) = ''0|0|4|0|0'' \<and>
   distBucket (empty_obs\<lparr>dist := JNum (Fin 1)\<rparr>) = Fin 0"
  by (simp add: discretize_def hpBucket_def hp_val_def ammoBucket_def distBucket_def
      dist_val_def zone_def knife_def js_or_def jgt_def empty_obs_def show_nat.simps)

section \<open>The decay of the exploration rate\<close>

text \<open>The rate a server starts with is never NaN and never zero.\<close>

lemma init_EPSILON: "truthy_num (EPSILON (init_server pa pg pe tbl))"
  by (simp add: init_server_def env_or_def)

lemma init_EPSILON_not_NaN: "EPSILON (init_server pa pg pe tbl) \<noteq> NaN"
  using init_EPSILON [of pa pg pe tbl] by (cases "EPSILON (init_server pa pg pe tbl)") simp_all

subsection \<open>The rounding\<close>

lemma pow2_pos [simp]: "0 < pow2 k"
  by (simp add: pow2_def)

lemma pow2_0 [simp]: "pow2 0 = 1"
  by (simp add: pow2_def)

lemma pow2_Suc: "pow2 (k + 1) = 2 * pow2 k"
proof (cases "0 \<le> k")
  case True
  then show ?thesis by (simp add: pow2_def nat_add_distrib)
next
  case False
  then have "nat (- k) = Suc (nat (- (k + 1)))" by simp
  then show ?thesis using False by (simp add: pow2_def)
qed

lemma pow2_pred: "pow2 (k - 1) = pow2 k / 2"
  using pow2_Suc [of "k - 1"] by simp

lemma pow2_add: "pow2 (j + int n) = 2 ^ n * pow2 j"
proof (induction n)
  case 0
  show ?case by simp
next
  case (Suc n)
  have "j + int (Suc n) = (j + int n) + 1" by simp
  then have "pow2 (j + int (Suc n)) = pow2 ((j + int n) + 1)" by (rule arg_cong)
  also have "\<dots> = 2 * pow2 (j + int n)" by (rule pow2_Suc)
  finally show ?case using Suc by simp
qed

lemma pow2_mono_strict: "j < k \<Longrightarrow> 2 * pow2 j \<le> pow2 k"
proof -
  assume "j < k"
  then obtain n where k: "k = (j + 1) + int n"
    by (metis zle_iff_zadd zless_imp_add1_zle add.commute)
  have "pow2 k = 2 ^ n * pow2 (j + 1)" unfolding k by (rule pow2_add)
  also have "\<dots> = 2 ^ n * (2 * pow2 j)" by (simp only: pow2_Suc)
  finally have "pow2 k = 2 ^ n * (2 * pow2 j)" .
  moreover have "(1::real) \<le> 2 ^ n" by simp
  moreover have "0 < 2 * pow2 j" by simp
  ultimately show ?thesis by (metis mult_le_cancel_right1 not_less less_eq_real_def)
qed

lemma expo_hi_bounds:
  "1 \<le> x \<Longrightarrow> pow2 (expo_hi x) \<le> x \<and> x < 2 * pow2 (expo_hi x)"
proof (induction x rule: expo_hi.induct)
  case (1 x)
  show ?case
  proof (cases "2 \<le> x")
    case True
    then have "1 \<le> x / 2" by simp
    from "1.IH" [OF True this] True show ?thesis
      by (simp add: expo_hi.simps [of x] pow2_Suc)
  next
    case False
    with "1.prems" show ?thesis by (simp add: expo_hi.simps [of x])
  qed
qed

lemma expo_lo_bounds:
  "0 < x \<Longrightarrow> x < 1 \<Longrightarrow> pow2 (expo_lo x) \<le> x \<and> x < 2 * pow2 (expo_lo x)"
proof (induction x rule: expo_lo.induct)
  case (1 x)
  have c: "0 < x \<and> x < 1" using "1.prems" by simp
  show ?case
  proof (cases "2 * x < 1")
    case True
    from "1.IH" [OF c _ True] c show ?thesis
      by (simp add: expo_lo.simps [of x] pow2_pred)
  next
    case False
    then have "expo_lo (2 * x) = 0" by (simp add: expo_lo.simps [of "2 * x"])
    with False c show ?thesis
      by (simp add: expo_lo.simps [of x] pow2_def)
  qed
qed

lemma expo_bounds: "0 < x \<Longrightarrow> pow2 (expo x) \<le> x \<and> x < 2 * pow2 (expo x)"
  using expo_hi_bounds [of x] expo_lo_bounds [of x] by (simp add: expo_def)

lemma expo_unique:
  assumes "0 < x" "pow2 e \<le> x" "x < 2 * pow2 e"
  shows "expo x = e"
proof (rule ccontr)
  assume "expo x \<noteq> e"
  then consider "expo x < e" | "e < expo x" by linarith
  then show False
  proof cases
    case 1
    from pow2_mono_strict [OF this] expo_bounds [OF assms(1)] assms(2) show False by linarith
  next
    case 2
    from pow2_mono_strict [OF this] expo_bounds [OF assms(1)] assms(3) show False by linarith
  qed
qed

lemma rne_near: "\<bar>of_int (rne y) - y\<bar> \<le> 1 / 2"
  unfolding rne_def by (auto; linarith)

lemma pow2_mono: "j \<le> k \<Longrightarrow> pow2 j \<le> pow2 k"
proof -
  assume "j \<le> k"
  then consider "j = k" | "j < k" by linarith
  then show ?thesis
  proof cases
    case 2
    from pow2_mono_strict [OF this] pow2_pos [of j] show ?thesis by linarith
  qed simp
qed

lemma pow2_52: "pow2 e = 2 ^ 52 * pow2 (e - 52)"
  using pow2_add [of "e - 52" 52] by simp

lemma unit_roundoff_pos: "0 < unit_roundoff" "unit_roundoff < 1"
  by (simp_all add: unit_roundoff_def)

lemma round_pos_rel:
  assumes "pow2 (- 1022) \<le> x" "x < pow2 1023"
  shows "\<bar>round_pos x - x\<bar> \<le> x * unit_roundoff"
proof -
  have x: "0 < x" using assms(1) pow2_pos [of "- 1022"] by linarith
  note b = expo_bounds [OF x]
  have lo: "- 1022 \<le> expo x"
  proof (rule ccontr)
    assume "\<not> - 1022 \<le> expo x"
    then have "expo x < - 1022" by simp
    from pow2_mono_strict [OF this] assms(1) b show False by linarith
  qed
  then have m: "max (expo x) (- 1022) = expo x" by simp
  define u where "u = pow2 (expo x - 52)"
  define a :: real where "a = of_int (rne (x / u))"
  have u: "0 < u" by (simp add: u_def)
  have pu: "pow2 (expo x) = 2 ^ 52 * u" unfolding u_def by (rule pow2_52)
  have "\<bar>a - x / u\<bar> \<le> 1 / 2" unfolding a_def by (rule rne_near)
  then have "\<bar>a - x / u\<bar> * u \<le> 1 / 2 * u"
    using u by (intro mult_right_mono) simp_all
  moreover have "a * u - x = (a - x / u) * u" using u by (simp add: field_simps)
  then have "\<bar>a * u - x\<bar> = \<bar>a - x / u\<bar> * u" using u by (simp add: abs_mult)
  ultimately have 1: "\<bar>a * u - x\<bar> \<le> u / 2" by simp
  have "2 ^ 52 * u \<le> x" using b pu by simp
  then have "2 ^ 52 * u * unit_roundoff \<le> x * unit_roundoff"
    using unit_roundoff_pos by (intro mult_right_mono) simp_all
  moreover have "2 ^ 52 * u * unit_roundoff = u / 2" by (simp add: unit_roundoff_def)
  ultimately have "u / 2 \<le> x * unit_roundoff" by linarith
  with 1 have "\<bar>a * u - x\<bar> \<le> x * unit_roundoff" by linarith
  then show ?thesis unfolding round_pos_def m u_def a_def .
qed

lemma round64_rel:
  assumes "pow2 (- 1022) \<le> x" "x < pow2 1023"
  shows "\<exists>r. round64 x = Fin r \<and> x * (1 - unit_roundoff) \<le> r \<and> r \<le> x * (1 + unit_roundoff)"
proof -
  have x: "0 < x" using assms(1) pow2_pos [of "- 1022"] by linarith
  from round_pos_rel [OF assms] have r: "\<bar>round_pos x - x\<bar> \<le> x * unit_roundoff" .
  have "pow2 1024 = 2 * pow2 1023" using pow2_Suc [of 1023] by simp
  moreover have "x * unit_roundoff \<le> x * 1"
    using x unit_roundoff_pos by (intro mult_left_mono) simp_all
  ultimately have "round_pos x < pow2 1024" using r assms(2) by linarith
  then have "round64 x = Fin (round_pos x)" using x by (simp add: round64_def)
  moreover have "x * (1 - unit_roundoff) \<le> round_pos x"
    "round_pos x \<le> x * (1 + unit_roundoff)"
    using r by (simp_all add: algebra_simps abs_le_iff)
  ultimately show ?thesis by blast
qed

lemma round64_eval:
  assumes "0 < x" "pow2 e \<le> x" "x < 2 * pow2 e" "- 1022 \<le> e" "e \<le> 1022"
  shows "round64 x = Fin (of_int (rne (x / pow2 (e - 52))) * pow2 (e - 52))"
proof -
  have e: "expo x = e" using assms(1-3) by (rule expo_unique)
  have "pow2 (- 1022) \<le> pow2 e" using assms(4) by (rule pow2_mono)
  then have 1: "pow2 (- 1022) \<le> x" using assms(2) by linarith
  have "2 * pow2 e = pow2 (e + 1)" by (simp add: pow2_Suc)
  also have "\<dots> \<le> pow2 1023" using assms(5) by (intro pow2_mono) simp
  finally have 2: "x < pow2 1023" using assms(3) by linarith
  from round64_rel [OF 1 2] obtain r where "round64 x = Fin r" by blast
  then have "round64 x = Fin (round_pos x)"
    using assms(1) by (auto simp add: round64_def split: if_splits)
  then show ?thesis using assms(4) by (simp add: round_pos_def e)
qed

text \<open>A tie goes to the even neighbour.\<close>

lemma round64_ties:
  "round64 (1 + 1 / 2 ^ 53) = Fin 1"
  "round64 (1 + 3 / 2 ^ 53) = Fin (1 + 4 / 2 ^ 53)"
  by (subst round64_eval [of _ 0]; simp add: pow2_def rne_def)+

lemma round64_not_NaN: "round64 x \<noteq> NaN"
  by (simp add: round64_def)

lemma lit_floor: "lit (1 / 100) = Fin (5764607523034235 / 576460752303423488)"
  unfolding lit_def by (subst round64_eval [of _ "- 7"]) (simp_all add: pow2_def rne_def)

lemma lit_decay: "lit (9995 / 10000) = Fin (4501347827556811 / 4503599627370496)"
  unfolding lit_def by (subst round64_eval [of _ "- 1"]) (simp_all add: pow2_def rne_def)


subsection \<open>The periodic step\<close>

lemma tick_EPSILON:
  "EPSILON (tick srv) = jmax (lit (1 / 100)) (mul64 (EPSILON srv) (lit (9995 / 10000)))"
  by (simp add: tick_def)

lemma mul64_not_NaN: "a \<noteq> NaN \<Longrightarrow> 0 < d \<Longrightarrow> mul64 a (Fin d) \<noteq> NaN"
  by (cases a) (simp_all add: mul64_def round64_not_NaN)

lemma tick_floor:
  assumes "EPSILON srv \<noteq> NaN"
  shows "EPSILON (tick srv) \<noteq> NaN \<and> \<not> jlt (EPSILON (tick srv)) (lit (1 / 100))"
proof -
  have "mul64 (EPSILON srv) (lit (9995 / 10000)) \<noteq> NaN"
    unfolding lit_decay using assms by (rule mul64_not_NaN) simp
  then show ?thesis unfolding tick_EPSILON lit_floor by (rule jmax_floor_ge)
qed

lemma ticks_floor:
  assumes "EPSILON srv \<noteq> NaN" "0 < N \<or> \<not> jlt (EPSILON srv) (lit (1 / 100))"
  shows "EPSILON (ticks N srv) \<noteq> NaN \<and> \<not> jlt (EPSILON (ticks N srv)) (lit (1 / 100))"
proof -
  have nn: "EPSILON (ticks n srv) \<noteq> NaN" for n
  proof (induction n)
    case 0
    show ?case using assms(1) by simp
  next
    case (Suc n)
    then show ?case using tick_floor [of "ticks n srv"] by simp
  qed
  show ?thesis
  proof (cases N)
    case 0
    with assms show ?thesis by simp
  next
    case (Suc n)
    then show ?thesis using tick_floor [OF nn [of n]] by simp
  qed
qed

lemma step_product:
  assumes "f64 \<le> r" "r < pow2 1023"
  shows "\<exists>z. mul64 (Fin r) (lit (9995 / 10000)) = Fin z \<and>
     r * (d64 * (1 - unit_roundoff)) \<le> z \<and> z \<le> r * (d64 * (1 + unit_roundoff))"
proof -
  have d: "0 < d64" "d64 < 1" by (simp_all add: d64_def)
  have "pow2 (- 1022) \<le> pow2 (- 7)" by (rule pow2_mono) simp
  also have "pow2 (- 7) \<le> f64 * d64" by (simp add: pow2_def f64_def d64_def)
  also have "f64 * d64 \<le> r * d64" using assms(1) d by simp
  finally have 1: "pow2 (- 1022) \<le> r * d64" .
  have "0 < r" using assms(1) by (simp add: f64_def)
  then have "r * d64 < r" using d by simp
  then have 2: "r * d64 < pow2 1023" using assms(2) by linarith
  have "mul64 (Fin r) (lit (9995 / 10000)) = round64 (r * d64)"
    unfolding lit_decay d64_def by (simp add: mul64_def)
  with round64_rel [OF 1 2] show ?thesis by (simp add: mult.assoc)
qed


lemma lit_floor_f64: "lit (1 / 100) = Fin f64"
  unfolding f64_def by (rule lit_floor)

lemma factor_bounds:
  "0 \<le> d64 * (1 - unit_roundoff)" "0 \<le> d64 * (1 + unit_roundoff)"
  "d64 * (1 + unit_roundoff) \<le> 1" "0 < f64"
  by (simp_all add: d64_def f64_def unit_roundoff_def)

lemma tick_finite:
  assumes "EPSILON srv = Fin r" "f64 \<le> r" "r < pow2 1023"
  shows "\<exists>z. EPSILON (tick srv) = Fin (max f64 z) \<and>
     r * (d64 * (1 - unit_roundoff)) \<le> z \<and> z \<le> r * (d64 * (1 + unit_roundoff))"
proof -
  from step_product [OF assms(2,3)] obtain z where
    z: "mul64 (Fin r) (lit (9995 / 10000)) = Fin z"
      "r * (d64 * (1 - unit_roundoff)) \<le> z" "z \<le> r * (d64 * (1 + unit_roundoff))"
    by blast
  have "EPSILON (tick srv) = Fin (max f64 z)"
    unfolding tick_EPSILON assms(1) z(1) lit_floor_f64 by simp
  with z(2,3) show ?thesis by blast
qed

lemma tick_at_floor:
  assumes "EPSILON srv = lit (1 / 100)"
  shows "EPSILON (tick srv) = lit (1 / 100)"
proof -
  have e: "EPSILON srv = Fin f64" using assms by (simp only: lit_floor_f64)
  have "f64 < pow2 1023"
  proof -
    have "f64 < pow2 0" by (simp add: f64_def)
    also have "pow2 0 \<le> pow2 1023" by (rule pow2_mono) simp
    finally show ?thesis .
  qed
  from tick_finite [OF e _ this] obtain z where
    z: "EPSILON (tick srv) = Fin (max f64 z)" "z \<le> f64 * (d64 * (1 + unit_roundoff))"
    by auto
  have "f64 * (d64 * (1 + unit_roundoff)) \<le> f64 * 1"
    using factor_bounds by (intro mult_left_mono) simp_all
  with z(2) have "z \<le> f64" by simp
  then show ?thesis unfolding z(1) lit_floor_f64 by simp
qed

lemma ticks_at_floor:
  "EPSILON (ticks N srv) = lit (1 / 100) \<Longrightarrow> EPSILON (ticks (N + M) srv) = lit (1 / 100)"
  by (induction M) (simp_all add: tick_at_floor)

lemma ticks_envelope:
  assumes "EPSILON srv = Fin e" "f64 \<le> e" "e < pow2 1023"
  shows "\<exists>r. EPSILON (ticks N srv) = Fin r \<and>
     max f64 (e * (d64 * (1 - unit_roundoff)) ^ N) \<le> r \<and>
     r \<le> max f64 (e * (d64 * (1 + unit_roundoff)) ^ N)"
proof -
  define lo where "lo = d64 * (1 - unit_roundoff)"
  define hi where "hi = d64 * (1 + unit_roundoff)"
  have b: "0 \<le> lo" "0 \<le> hi" "hi \<le> 1"
    unfolding lo_def hi_def by (rule factor_bounds)+
  have "\<exists>r. EPSILON (ticks N srv) = Fin r \<and> max f64 (e * lo ^ N) \<le> r \<and>
      r \<le> max f64 (e * hi ^ N)"
  proof (induction N)
    case 0
    show ?case using assms(1,2) by simp
  next
    case (Suc N)
    then obtain r where r: "EPSILON (ticks N srv) = Fin r"
      "max f64 (e * lo ^ N) \<le> r" "r \<le> max f64 (e * hi ^ N)" by blast
    have e0: "0 \<le> e" using assms(2) factor_bounds(4) by linarith
    have "hi ^ N \<le> 1" using b by (intro power_le_one) simp_all
    then have "e * hi ^ N \<le> e * 1" using e0 by (intro mult_left_mono) simp_all
    with r(3) assms(2) have "r \<le> e" by simp
    with assms(3) have r3: "r < pow2 1023" by linarith
    have r2: "f64 \<le> r" using r(2) by simp
    from tick_finite [OF r(1) r2 r3] obtain z where
      z: "EPSILON (tick (ticks N srv)) = Fin (max f64 z)" "r * lo \<le> z" "z \<le> r * hi"
      unfolding lo_def hi_def by blast
    have "e * lo ^ N \<le> r" using r(2) by simp
    then have "(e * lo ^ N) * lo \<le> r * lo" using b(1) by (rule mult_right_mono)
    moreover have "(e * lo ^ N) * lo = e * lo ^ Suc N" by simp
    ultimately have lo: "e * lo ^ Suc N \<le> z" using z(2) by linarith
    have "z \<le> max f64 (e * hi ^ Suc N)"
    proof (cases "r \<le> f64")
      case True
      then have "r * hi \<le> f64 * 1"
        using b r2 factor_bounds(4) by (intro mult_mono) simp_all
      with z(3) show ?thesis by simp
    next
      case False
      with r(3) have "r \<le> e * hi ^ N" by simp
      then have "r * hi \<le> (e * hi ^ N) * hi" using b(2) by (rule mult_right_mono)
      moreover have "(e * hi ^ N) * hi = e * hi ^ Suc N" by simp
      ultimately have "z \<le> e * hi ^ Suc N" using z(3) by linarith
      then show ?thesis by simp
    qed
    with lo z(1) show ?case by (intro exI [of _ "max f64 z"]) (simp add: max.coboundedI2)
  qed
  then show ?thesis unfolding lo_def hi_def .
qed


lemma decay_bound:
  fixes x c :: real
  assumes "0 < x" "x < 1" "0 < c" "c \<le> 1 + real n * (1 / x - 1)"
  shows "x ^ n \<le> 1 / c"
proof -
  have "1 + real n * (1 / x - 1) \<le> (1 + (1 / x - 1)) ^ n"
    using assms(1,2) by (intro Bernoulli_inequality) simp
  then have "c \<le> (1 / x) ^ n" using assms(4) by simp
  then have "c \<le> 1 / x ^ n" by (simp only: power_one_over)
  moreover have "0 < x ^ n" using assms(1) by simp
  ultimately show ?thesis using assms(3) by (simp add: field_simps)
qed


lemma default_EPSILON: "EPSILON default_server = Fin (1 / 4)"
  by (simp add: default_server_def init_server_def env_or_def)


lemma default_reaches_floor: "EPSILON (ticks 48000 default_server) = lit (1 / 100)"
proof -
  define hi where "hi = d64 * (1 + unit_roundoff)"
  have "f64 \<le> 1 / 4" by (simp add: f64_def)
  moreover have "(1 / 4 :: real) < pow2 1023"
  proof -
    have "(1 / 4 :: real) < pow2 0" by simp
    also have "pow2 0 \<le> pow2 1023" by (rule pow2_mono) simp
    finally show ?thesis .
  qed
  ultimately obtain r where r: "EPSILON (ticks 48000 default_server) = Fin r"
    "f64 \<le> r" "r \<le> max f64 (1 / 4 * hi ^ 48000)"
    using ticks_envelope [OF default_EPSILON, of 48000] unfolding hi_def by auto
  have "hi ^ 48000 \<le> 1 / 25"
    by (rule decay_bound) (simp_all add: hi_def d64_def unit_roundoff_def)
  then have "1 / 4 * hi ^ 48000 \<le> 1 / 100" by simp
  also have "1 / 100 \<le> f64" by (simp add: f64_def)
  finally have "max f64 (1 / 4 * hi ^ 48000) = f64" by simp
  with r have "r = f64" by simp
  then show ?thesis unfolding r(1) lit_floor_f64 by simp
qed


lemma lit_decay_d64: "lit (9995 / 10000) = Fin d64"
  unfolding d64_def by (rule lit_decay)

text \<open>
  Claim C7, as the code has it. Every tick sets the rate to
  \<open>Math.max(0.01, EPSILON * 0.9995)\<close>, a rounded product of doubles. From the first
  tick on, and from the start when the initial rate is not below the floor, the rate is
  never below the floor 0.01 (and never NaN); once it equals the floor it stays there.
  The closed form holds up to the rounding only: from an initial rate \<open>e\<close> between the
  floor and \<open>2^1023\<close> the rate after \<open>N\<close> ticks lies between \<open>max(f, e * (d * (1 - u))^N)\<close>
  and \<open>max(f, e * (d * (1 + u))^N)\<close>, where \<open>f\<close> and \<open>d\<close> are the doubles of 0.01 and
  0.9995 and \<open>u\<close> is \<open>2^-53\<close>.
\<close>

theorem decay_after_ticks:
  assumes "EPSILON srv \<noteq> NaN" and "0 < N \<or> \<not> jlt (EPSILON srv) (lit (1 / 100))"
  shows "EPSILON (ticks (Suc N) srv) =
       jmax (lit (1 / 100)) (mul64 (EPSILON (ticks N srv)) (lit (9995 / 10000))) \<and>
     EPSILON (ticks N srv) \<noteq> NaN \<and> \<not> jlt (EPSILON (ticks N srv)) (lit (1 / 100)) \<and>
     (EPSILON (ticks N srv) = lit (1 / 100) \<longrightarrow> EPSILON (ticks (N + M) srv) = lit (1 / 100)) \<and>
     (\<forall>e. EPSILON srv = Fin e \<and> f64 \<le> e \<and> e < pow2 1023 \<longrightarrow>
        (\<exists>r. EPSILON (ticks N srv) = Fin r \<and>
           max f64 (e * (d64 * (1 - unit_roundoff)) ^ N) \<le> r \<and>
           r \<le> max f64 (e * (d64 * (1 + unit_roundoff)) ^ N))) \<and>
     lit (1 / 100) = Fin f64 \<and> lit (9995 / 10000) = Fin d64 \<and>
     \<bar>f64 - 1 / 100\<bar> \<le> 1 / 100 * unit_roundoff \<and>
     \<bar>d64 - 9995 / 10000\<bar> \<le> 9995 / 10000 * unit_roundoff"
proof -
  have 1: "EPSILON (ticks (Suc N) srv) =
       jmax (lit (1 / 100)) (mul64 (EPSILON (ticks N srv)) (lit (9995 / 10000)))"
    by (simp add: tick_def)
  have f: "lit (1 / 100) = Fin f64"
    unfolding lit_def f64_def
    by (subst round64_eval [of _ "- 7"]) (simp_all add: pow2_def rne_def)
  have d: "lit (9995 / 10000) = Fin d64"
    unfolding lit_def d64_def
    by (subst round64_eval [of _ "- 1"]) (simp_all add: pow2_def rne_def)
  have 2: "EPSILON (ticks N srv) \<noteq> NaN \<and> \<not> jlt (EPSILON (ticks N srv)) (lit (1 / 100))"
  proof (cases N)
    case 0
    with assms show ?thesis by simp
  next
    case (Suc n)
    have "EPSILON (ticks n srv) \<noteq> NaN" using ticks_floor [of srv n] assms(1)
      by (cases n) (simp_all add: tick_floor)
    then have "mul64 (EPSILON (ticks n srv)) (Fin d64) \<noteq> NaN"
      by (rule mul64_not_NaN) (simp add: d64_def)
    then show ?thesis
      unfolding Suc ticks.simps tick_def f d
      by (cases "mul64 (EPSILON (ticks n srv)) (Fin d64)") (simp_all add: jmax_def)
  qed
  have 3: "EPSILON (ticks N srv) = lit (1 / 100) \<longrightarrow> EPSILON (ticks (N + M) srv) = lit (1 / 100)"
    using ticks_at_floor by blast
  have 4: "\<forall>e. EPSILON srv = Fin e \<and> f64 \<le> e \<and> e < pow2 1023 \<longrightarrow>
        (\<exists>r. EPSILON (ticks N srv) = Fin r \<and>
           max f64 (e * (d64 * (1 - unit_roundoff)) ^ N) \<le> r \<and>
           r \<le> max f64 (e * (d64 * (1 + unit_roundoff)) ^ N))"
    using ticks_envelope by blast
  have 5: "\<bar>f64 - 1 / 100\<bar> \<le> 1 / 100 * unit_roundoff"
    "\<bar>d64 - 9995 / 10000\<bar> \<le> 9995 / 10000 * unit_roundoff"
    by (simp_all add: f64_def d64_def unit_roundoff_def)
  show ?thesis using 1 2 3 4 f d 5 by blast
qed

text \<open>
  Witness of C7: the default server (initial rate 0.25) after two ticks has the rate
  \<open>4499097153643033 / 2^54\<close>, the double that prints as 0.24975006250000004, which is
  not below the floor.
\<close>

theorem decay_after_ticks_witness:
  "EPSILON default_server \<noteq> NaN \<and> (0::nat) < 2 \<and>
   EPSILON (ticks 2 default_server) = Fin (4499097153643033 / 18014398509481984) \<and>
   \<not> jlt (EPSILON (ticks 2 default_server)) (lit (1 / 100))"
proof -
  have e: "EPSILON default_server = Fin (1 / 4)"
    by (simp add: default_server_def init_server_def env_or_def)
  have f: "lit (1 / 100) = Fin (5764607523034235 / 576460752303423488)"
    unfolding lit_def by (subst round64_eval [of _ "- 7"]) (simp_all add: pow2_def rne_def)
  have d: "lit (9995 / 10000) = Fin (4501347827556811 / 4503599627370496)"
    unfolding lit_def by (subst round64_eval [of _ "- 1"]) (simp_all add: pow2_def rne_def)
  have "mul64 (Fin (1 / 4)) (Fin (4501347827556811 / 4503599627370496)) =
      round64 (1 / 4 * (4501347827556811 / 4503599627370496))"
    unfolding mul64_def by simp
  also have "\<dots> = Fin (4501347827556811 / 18014398509481984)"
    by (subst round64_eval [of _ "- 3"]) (simp_all add: pow2_def rne_def)
  finally have m1: "mul64 (Fin (1 / 4)) (Fin (4501347827556811 / 4503599627370496)) =
      Fin (4501347827556811 / 18014398509481984)" .
  have "mul64 (Fin (4501347827556811 / 18014398509481984))
       (Fin (4501347827556811 / 4503599627370496)) =
      round64 (4501347827556811 / 18014398509481984 * (4501347827556811 / 4503599627370496))"
    unfolding mul64_def by simp
  also have "\<dots> = Fin (4499097153643033 / 18014398509481984)"
    by (subst round64_eval [of _ "- 3"]) (simp_all add: pow2_def rne_def)
  finally have m2: "mul64 (Fin (4501347827556811 / 18014398509481984))
       (Fin (4501347827556811 / 4503599627370496)) =
      Fin (4499097153643033 / 18014398509481984)" .
  have h: "EPSILON default_server \<noteq> NaN" unfolding e by simp
  have n0: "0 < (0::nat) \<or> \<not> jlt (EPSILON default_server) (lit (1 / 100))"
    unfolding e f by simp
  have n1: "0 < Suc 0 \<or> \<not> jlt (EPSILON default_server) (lit (1 / 100))" by simp
  have n2: "0 < Suc (Suc 0) \<or> \<not> jlt (EPSILON default_server) (lit (1 / 100))" by simp
  from decay_after_ticks [OF h n0]
  have "EPSILON (ticks (Suc 0) default_server) =
      jmax (lit (1 / 100)) (mul64 (EPSILON (ticks 0 default_server)) (lit (9995 / 10000)))"
    by blast
  then have v1: "EPSILON (ticks (Suc 0) default_server) =
      Fin (4501347827556811 / 18014398509481984)"
    unfolding ticks.simps(1) e f d m1 by simp
  from decay_after_ticks [OF h n1]
  have "EPSILON (ticks (Suc (Suc 0)) default_server) =
      jmax (lit (1 / 100)) (mul64 (EPSILON (ticks (Suc 0) default_server)) (lit (9995 / 10000)))"
    by blast
  then have v2: "EPSILON (ticks (Suc (Suc 0)) default_server) =
      Fin (4499097153643033 / 18014398509481984)"
    unfolding v1 f d m2 by simp
  from decay_after_ticks [OF h n2]
  have "\<not> jlt (EPSILON (ticks (Suc (Suc 0)) default_server)) (lit (1 / 100))" by blast
  with h v2 show ?thesis unfolding numeral_2_eq_2 by blast
qed

text \<open>
  Counterexample to C7 as stated. After two ticks from the default rate 0.25 the rate is
  neither \<open>max(0.01, 0.25 * 0.9995^2) = 0.2497500625\<close> nor the double nearest to it. After
  48000 ticks the rate is the floor 0.01 itself, so the floor is reached. And a rate
  configured as 0.005 is below the floor before the first tick.
\<close>

theorem decay_rounds_and_reaches_floor:
  "EPSILON (ticks 2 default_server) = Fin (4499097153643033 / 18014398509481984) \<and>
   EPSILON (ticks 2 default_server) \<noteq> Fin (max (1 / 100) (25 / 100 * (9995 / 10000) ^ 2)) \<and>
   EPSILON (ticks 2 default_server) \<noteq> lit (max (1 / 100) (25 / 100 * (9995 / 10000) ^ 2)) \<and>
   EPSILON (ticks 48000 default_server) = lit (1 / 100) \<and>
   EPSILON (ticks 0 (init_server NaN NaN (lit (5 / 1000)) Map.empty)) = lit (5 / 1000) \<and>
   jlt (lit (5 / 1000)) (lit (1 / 100))"
proof -
  have f: "lit (1 / 100) = Fin (5764607523034235 / 576460752303423488)"
    unfolding lit_def by (subst round64_eval [of _ "- 7"]) (simp_all add: pow2_def rne_def)
  have d: "lit (9995 / 10000) = Fin (4501347827556811 / 4503599627370496)"
    unfolding lit_def by (subst round64_eval [of _ "- 1"]) (simp_all add: pow2_def rne_def)
  have b: "lit (5 / 1000) = Fin (5764607523034235 / 1152921504606846976)"
    unfolding lit_def by (subst round64_eval [of _ "- 8"]) (simp_all add: pow2_def rne_def)
  have c: "lit (max (1 / 100) (25 / 100 * (9995 / 10000) ^ 2)) =
      Fin (8998194307286065 / 36028797018963968)"
    unfolding lit_def
    by (subst round64_eval [of _ "- 3"]) (simp_all add: pow2_def rne_def power2_eq_square)
  have "mul64 (Fin (1 / 4)) (Fin (4501347827556811 / 4503599627370496)) =
      round64 (1 / 4 * (4501347827556811 / 4503599627370496))"
    unfolding mul64_def by simp
  also have "\<dots> = Fin (4501347827556811 / 18014398509481984)"
    by (subst round64_eval [of _ "- 3"]) (simp_all add: pow2_def rne_def)
  finally have m1: "mul64 (Fin (1 / 4)) (Fin (4501347827556811 / 4503599627370496)) =
      Fin (4501347827556811 / 18014398509481984)" .
  have "mul64 (Fin (4501347827556811 / 18014398509481984))
       (Fin (4501347827556811 / 4503599627370496)) =
      round64 (4501347827556811 / 18014398509481984 * (4501347827556811 / 4503599627370496))"
    unfolding mul64_def by simp
  also have "\<dots> = Fin (4499097153643033 / 18014398509481984)"
    by (subst round64_eval [of _ "- 3"]) (simp_all add: pow2_def rne_def)
  finally have m2: "mul64 (Fin (4501347827556811 / 18014398509481984))
       (Fin (4501347827556811 / 4503599627370496)) =
      Fin (4499097153643033 / 18014398509481984)" .
  have e: "EPSILON default_server = Fin (1 / 4)"
    by (simp add: default_server_def init_server_def env_or_def)
  have "EPSILON (tick (tick default_server)) = Fin (4499097153643033 / 18014398509481984)"
    unfolding tick_def f d by (simp add: e m1 m2 jmax_def)
  then have t2: "EPSILON (ticks 2 default_server) = Fin (4499097153643033 / 18014398509481984)"
    by (simp add: numeral_2_eq_2)
  have "EPSILON (ticks 2 default_server) \<noteq> Fin (max (1 / 100) (25 / 100 * (9995 / 10000) ^ 2))"
    unfolding t2 by (simp add: power2_eq_square)
  moreover have "EPSILON (ticks 2 default_server) \<noteq>
      lit (max (1 / 100) (25 / 100 * (9995 / 10000) ^ 2))"
    unfolding t2 c by simp
  moreover have "EPSILON (ticks 0 (init_server NaN NaN (lit (5 / 1000)) Map.empty)) = lit (5 / 1000)"
    unfolding b by (simp add: init_server_def env_or_def)
  moreover have "jlt (lit (5 / 1000)) (lit (1 / 100))"
    unfolding b f by simp
  ultimately show ?thesis using t2 default_reaches_floor by blast
qed

section \<open>Evaluating the examples\<close>

lemma discretize_is_stateKey: "is_stateKey (discretize ob)"
  by (simp add: discretize_def is_stateKey_def)

lemma discretize_demo: "discretize demo_obs = demo_key"
  by (simp add: discretize_def hpBucket_def hp_val_def ammoBucket_def distBucket_def
      dist_val_def zone_def knife_def js_or_def jgt_def demo_obs_def demo_key_def show_nat.simps)

lemma demo_key_stateKey: "is_stateKey demo_key"
  by (simp add: is_stateKey_def demo_key_def)

lemma wf_demo_server: "wf_table demo_server"
  by (simp add: wf_table_def demo_server_def ACTIONS_def)


lemma wf_default_server: "wf_table default_server"
  by (simp add: wf_table_def default_server_def init_server_def)

lemmas run_defs = on_message_def on_obs_def on_reward_def obs_msg_def reward_msg_def Let_def
  discretize_demo obs_or_empty_def botId_of_def chooseAction_def ensureState_def
  default_server_def init_server_def env_or_def new_botState_def botState_set_def
  botState_get_def botState_delete_def reward_of_def js_or_def updateQ_def
  best_loop.simps ACTIONS_def row_get_def row_set_def Math_max_def jmax_def jsub_def jgt_def
  demo_key_def demo_server_def row_or_zero_def

section \<open>The learner\<close>

lemma updateQ_qtable:
  assumes "a < length (row_or_zero srv s)"
  shows "qtable (updateQ srv s a r sNext) k =
       (if k = s then
          Some ((row_or_zero srv s)[a :=
            jadd (row_or_zero srv s ! a)
              (jmul (ALPHA srv)
                 (jsub (jadd r (jmul (GAMMA srv) (Math_max (row_or_zero srv sNext))))
                    (row_or_zero srv s ! a)))])
        else if k = sNext then Some (row_or_zero srv sNext)
        else qtable srv k)"
proof -
  from assms have get: "row_get (row_or_zero srv s) a = row_or_zero srv s ! a"
    and set: "\<And>v. row_set (row_or_zero srv s) a v = (row_or_zero srv s)[a := v]"
    by (simp_all add: row_get_def row_set_def)
  show ?thesis
    unfolding updateQ_unfold get set by (simp add: ensure2_qtable)
qed


lemma wf_updateQ:
  assumes "wf_table srv" "a < length ACTIONS"
  shows "wf_table (updateQ srv s a r sNext)"
  unfolding wf_table_def
proof (intro allI impI)
  fix k row assume row: "qtable (updateQ srv s a r sNext) k = Some row"
  have len: "length (row_or_zero srv s) = length ACTIONS"
    using assms(1) by (rule wf_row_or_zero)
  with assms(2) have "a < length (row_or_zero srv s)" by simp
  from row [unfolded updateQ_qtable [OF this]] show "length row = length ACTIONS"
    using len wf_row_or_zero [OF assms(1), of sNext] assms(1)
    by (auto simp add: wf_table_def split: if_splits)
qed



text \<open>
  Claim C6, as the code has it. With reward 0, a finite \<open>ALPHA\<close>, a finite current value
  and \<open>GAMMA * bestNext\<close> equal to the current value, the update changes no entry: the
  state after it is the state with the two rows ensured.
\<close>

theorem updateQ_equilibrium:
  assumes "wf_table srv" "a < length ACTIONS" "is_stateKey s" "is_stateKey sNext"
    and "ALPHA srv = Fin al" "row_or_zero srv s ! a = Fin c"
    and "jmul (GAMMA srv) (Math_max (row_or_zero srv sNext)) = row_or_zero srv s ! a"
  shows "updateQ srv s a (Fin 0) sNext = ensureState (ensureState srv s) sNext \<and>
     row_or_zero (updateQ srv s a (Fin 0) sNext) s ! a = row_or_zero srv s ! a"
proof -
  have len: "length (row_or_zero srv s) = length ACTIONS"
    using assms(1) by (rule wf_row_or_zero)
  with assms(2) have a: "a < length (row_or_zero srv s)" by simp
  then have get: "row_get (row_or_zero srv s) a = Fin c"
    and set: "\<And>v. row_set (row_or_zero srv s) a v = (row_or_zero srv s)[a := v]"
    using assms(6) by (simp_all add: row_get_def row_set_def)
  have new: "jadd (Fin c) (jmul (Fin al) (jsub (jadd (Fin 0) (Fin c)) (Fin c))) = Fin c"
    by (simp add: jsub_def)
  have same: "(row_or_zero srv s)[a := Fin c] = row_or_zero srv s"
    using assms(6) by (metis list_update_id)
  have idem: "(qtable (ensureState (ensureState srv s) sNext))(s \<mapsto> row_or_zero srv s) =
      qtable (ensureState (ensureState srv s) sNext)"
    by (rule fun_upd_idem) (simp add: ensure2_qtable)
  have 1: "updateQ srv s a (Fin 0) sNext = ensureState (ensureState srv s) sNext"
    unfolding updateQ_unfold get set assms(5) assms(7) assms(6) new same idem
    by simp
  have "row_or_zero (ensureState (ensureState srv s) sNext) s = row_or_zero srv s"
    by (simp add: row_or_zero_ensureState)
  with 1 show ?thesis by simp
qed

text \<open>
  Witness of C6: in the table with the row \<open>[1, 3, 3, 0, 2, 0]\<close>, entry 3 is 0 and the
  row of a key that is not there yet has the maximum 0, so \<open>0.96 * 0 = 0\<close> is the current
  value and the entry stays 0.
\<close>

theorem updateQ_equilibrium_witness:
  "wf_table demo_server \<and> 3 < length ACTIONS \<and> is_stateKey demo_key \<and>
   is_stateKey ''0|0|4|0|0'' \<and> ALPHA demo_server = Fin (12 / 100) \<and>
   row_or_zero demo_server demo_key ! 3 = Fin 0 \<and>
   jmul (GAMMA demo_server) (Math_max (row_or_zero demo_server ''0|0|4|0|0'')) =
     row_or_zero demo_server demo_key ! 3 \<and>
   row_or_zero (updateQ demo_server demo_key 3 (Fin 0) ''0|0|4|0|0'') demo_key ! 3 = Fin 0"
proof -
  have h: "wf_table demo_server" "3 < length ACTIONS" "is_stateKey demo_key"
    "is_stateKey ''0|0|4|0|0''"
    by (simp_all add: wf_demo_server demo_key_stateKey ACTIONS_def is_stateKey_def demo_key_def)
  have g: "ALPHA demo_server = Fin (12 / 100)" "row_or_zero demo_server demo_key ! 3 = Fin 0"
    "jmul (GAMMA demo_server) (Math_max (row_or_zero demo_server ''0|0|4|0|0'')) =
       row_or_zero demo_server demo_key ! 3"
    by (simp_all add: row_or_zero_def demo_server_def default_server_def init_server_def
        env_or_def demo_key_def Math_max_def jmax_def ACTIONS_def)
  from updateQ_equilibrium [OF h g, THEN conjunct2] g(2)
  have "row_or_zero (updateQ demo_server demo_key 3 (Fin 0) ''0|0|4|0|0'') demo_key ! 3 = Fin 0"
    by simp
  with h g show ?thesis by blast
qed

text \<open>
  Counterexample to C6 as stated (for every value and every alpha). First: the
  observation of the scenario and a reward of \<open>1e999\<close>, which \<open>JSON.parse\<close> reads as
  Infinity, leave Infinity at action 0 of the key; then \<open>GAMMA * bestNext\<close> is Infinity
  and equals the current value, and the update with reward 0 from the key to itself
  stores \<open>Infinity + 0.12 * (Infinity - Infinity)\<close>, which is NaN. Second: with
  \<open>ALPHA\<close> set to Infinity and the fresh row of zeros, \<open>0.96 * 0\<close> equals the current value
  0, and the update stores \<open>0 + Infinity * 0\<close>, which is NaN.
\<close>

theorem equilibrium_drifts_when_infinite:
  "qtable (fst (run_msgs [obs_msg (IdStr ''b1''), reward_msg (IdStr ''b1'') (JNum PosInf)]
      (default_server, new_botState))) demo_key =
     Some [PosInf, Fin 0, Fin 0, Fin 0, Fin 0, Fin 0] \<and>
   jmul (GAMMA default_server) (Math_max [PosInf, Fin 0, Fin 0, Fin 0, Fin 0, Fin 0]) =
     [PosInf, Fin 0, Fin 0, Fin 0, Fin 0, Fin 0] ! 0 \<and>
   qtable (updateQ (fst (run_msgs [obs_msg (IdStr ''b1''), reward_msg (IdStr ''b1'') (JNum PosInf)]
      (default_server, new_botState))) demo_key 0 (Fin 0) demo_key) demo_key =
     Some [NaN, Fin 0, Fin 0, Fin 0, Fin 0, Fin 0] \<and>
   ALPHA (init_server PosInf NaN NaN Map.empty) = PosInf \<and>
   jmul (GAMMA (init_server PosInf NaN NaN Map.empty))
      (Math_max (row_or_zero (init_server PosInf NaN NaN Map.empty) demo_key)) =
     row_or_zero (init_server PosInf NaN NaN Map.empty) demo_key ! 0 \<and>
   row_or_zero (init_server PosInf NaN NaN Map.empty) demo_key ! 0 = Fin 0 \<and>
   qtable (updateQ (init_server PosInf NaN NaN Map.empty) demo_key 0 (Fin 0) demo_key) demo_key =
     Some [NaN, Fin 0, Fin 0, Fin 0, Fin 0, Fin 0]"
  by (simp add: run_defs)

section \<open>The policy\<close>

lemma chooseAction_srv: "snd (chooseAction u1 u2 srv k) = ensureState srv k"
  by (simp add: chooseAction_def Let_def ensureState_row)

lemma chooseAction_exploit:
  "\<not> jlt (Fin u1) (EPSILON srv) \<Longrightarrow>
   fst (chooseAction u1 u2 srv k) = best_loop (row_or_zero srv k) 0 0 NegInf"
  by (simp add: chooseAction_def Let_def ensureState_row)

text \<open>
  Claim C3. With the exploration rate 0 the test \<open>Math.random() < EPSILON\<close> fails for
  every random number \<open>u1 \<ge> 0\<close>; the property holds as well for any rate when the test
  fails, which is the case a running server meets (its rate is never 0: a configured 0
  gives the default 0.25, and the decay stops at 0.01). Then, on a table whose rows have
  one value per action, \<open>chooseAction\<close> returns an index \<open>b\<close> of the key's row (the row of
  zeros for a new key) such that no entry compares greater than the entry at \<open>b\<close> and no
  entry before \<open>b\<close> equals it: the first place of the maximum. When the row holds no NaN
  the entry at \<open>b\<close> is \<open>Math.max\<close> of the row. On a row whose entries are all equal, and
  so for a key that had no row, the index is 0.
\<close>

theorem chooseAction_greedy:
  assumes "EPSILON srv = Fin 0 \<or> \<not> jlt (Fin u1) (EPSILON srv)" "0 \<le> u1"
    and "wf_table srv" "is_stateKey k"
  shows "fst (chooseAction u1 u2 srv k) < length (row_or_zero srv k) \<and>
    (\<forall>j<length (row_or_zero srv k).
       \<not> jgt (row_or_zero srv k ! j) (row_or_zero srv k ! fst (chooseAction u1 u2 srv k))) \<and>
    (\<forall>j<fst (chooseAction u1 u2 srv k).
       row_or_zero srv k ! j \<noteq> row_or_zero srv k ! fst (chooseAction u1 u2 srv k)) \<and>
    (NaN \<notin> set (row_or_zero srv k) \<longrightarrow>
       row_or_zero srv k ! fst (chooseAction u1 u2 srv k) = Math_max (row_or_zero srv k)) \<and>
    ((\<forall>j<length (row_or_zero srv k). row_or_zero srv k ! j = row_or_zero srv k ! 0) \<longrightarrow>
       fst (chooseAction u1 u2 srv k) = 0) \<and>
    (qtable srv k = None \<longrightarrow> fst (chooseAction u1 u2 srv k) = 0)"
proof -
  let ?row = "row_or_zero srv k"
  let ?b = "fst (chooseAction u1 u2 srv k)"
  have "\<not> jlt (Fin u1) (EPSILON srv)" using assms(1,2) by auto
  then have b: "?b = best_loop ?row 0 0 NegInf" by (rule chooseAction_exploit)
  have len: "length ?row = length ACTIONS" using assms(3) by (rule wf_row_or_zero)
  then have ne: "?row \<noteq> []" by (auto simp add: ACTIONS_def)
  have post: "best_post ?row ?b" unfolding b by (rule best_loop_spec)
  note m = best_post_max [OF post ne]
  have eq0: "?b = 0" if "\<forall>j<length ?row. ?row ! j = ?row ! 0"
  proof (rule ccontr)
    assume "?b \<noteq> 0"
    then have "0 < ?b" by simp
    with m have "?row ! 0 \<noteq> ?row ! ?b" by blast
    moreover from m that have "?row ! ?b = ?row ! 0" by blast
    ultimately show False by simp
  qed
  have fresh: "?b = 0" if "qtable srv k = None"
  proof -
    from that have "?row = replicate (length ACTIONS) (Fin 0)" by (simp add: row_or_zero_def)
    then have z: "\<forall>j<length ?row. ?row ! j = Fin 0" by simp
    moreover from ne have "0 < length ?row" by simp
    ultimately have "\<forall>j<length ?row. ?row ! j = ?row ! 0" by metis
    then show ?thesis by (rule eq0)
  qed
  have mx: "?row ! ?b = Math_max ?row" if "NaN \<notin> set ?row"
    using that m by (intro Math_max_first) blast+
  show ?thesis using m eq0 fresh mx by blast
qed

text \<open>
  Witness of C3: the row \<open>[1, 3, 3, 0, 2, 0]\<close> has its maximum 3 at the places 1 and 2,
  and the index returned is 1, with the rate 0 and with the default rate 0.25 and the
  random number 1/2.
\<close>

theorem chooseAction_greedy_witness:
  "EPSILON (demo_server\<lparr>EPSILON := Fin 0\<rparr>) = Fin 0 \<and> (0::real) \<le> 1 / 2 \<and>
   wf_table (demo_server\<lparr>EPSILON := Fin 0\<rparr>) \<and> is_stateKey demo_key \<and>
   fst (chooseAction (1 / 2) (1 / 2) (demo_server\<lparr>EPSILON := Fin 0\<rparr>) demo_key) = 1 \<and>
   row_or_zero (demo_server\<lparr>EPSILON := Fin 0\<rparr>) demo_key ! 1 =
     Math_max (row_or_zero (demo_server\<lparr>EPSILON := Fin 0\<rparr>) demo_key) \<and>
   \<not> jlt (Fin (1 / 2)) (EPSILON demo_server) \<and> wf_table demo_server \<and>
   fst (chooseAction (1 / 2) (1 / 2) demo_server demo_key) = 1 \<and>
   row_or_zero demo_server demo_key ! 1 = Math_max (row_or_zero demo_server demo_key)"
proof -
  have h: "EPSILON (demo_server\<lparr>EPSILON := Fin 0\<rparr>) = Fin 0 \<or>
      \<not> jlt (Fin (1 / 2)) (EPSILON (demo_server\<lparr>EPSILON := Fin 0\<rparr>))" "(0::real) \<le> 1 / 2"
    "wf_table (demo_server\<lparr>EPSILON := Fin 0\<rparr>)" "is_stateKey demo_key"
    using wf_demo_server demo_key_stateKey by (simp_all add: wf_table_def)
  have v: "fst (chooseAction (1 / 2) (1 / 2) (demo_server\<lparr>EPSILON := Fin 0\<rparr>) demo_key) = 1"
    by (simp add: run_defs)
  have "NaN \<notin> set (row_or_zero (demo_server\<lparr>EPSILON := Fin 0\<rparr>) demo_key)"
    by (simp add: row_or_zero_def demo_server_def)
  with chooseAction_greedy [OF h, of "1 / 2"] v
  have 1: "row_or_zero (demo_server\<lparr>EPSILON := Fin 0\<rparr>) demo_key ! 1 =
     Math_max (row_or_zero (demo_server\<lparr>EPSILON := Fin 0\<rparr>) demo_key)"
    by simp
  have e: "\<not> jlt (Fin (1 / 2)) (EPSILON demo_server)"
    by (simp add: demo_server_def default_server_def init_server_def env_or_def)
  then have g: "EPSILON demo_server = Fin 0 \<or> \<not> jlt (Fin (1 / 2)) (EPSILON demo_server)" ..
  have w: "fst (chooseAction (1 / 2) (1 / 2) demo_server demo_key) = 1"
    by (simp add: run_defs)
  have "NaN \<notin> set (row_or_zero demo_server demo_key)"
    by (simp add: row_or_zero_def demo_server_def)
  with chooseAction_greedy [OF g h(2) wf_demo_server h(4), of "1 / 2"] w
  have 2: "row_or_zero demo_server demo_key ! 1 = Math_max (row_or_zero demo_server demo_key)"
    by simp
  from h(2-) v 1 e wf_demo_server w 2 show ?thesis by simp
qed

section \<open>The message handler\<close>

lemma on_obs_server:
  "fst (on_obs u1 u2 now msg (srv, bs)) = ensureState srv (discretize (obs_or_empty (obs msg)))"
  by (simp add: on_obs_def Let_def split_beta chooseAction_srv)

lemma on_obs_botState:
  "fst (snd (on_obs u1 u2 now msg (srv, bs))) =
     botState_set bs (botId_of (botId msg))
       \<lparr>state = discretize (obs_or_empty (obs msg)),
        actionIdx = fst (chooseAction u1 u2 srv (discretize (obs_or_empty (obs msg)))),
        lastObsAt = now\<rparr>"
  by (simp add: on_obs_def Let_def split_beta)

lemma botState_get_set: "botState_get (botState_set bs k e) k = Some e"
  by (simp add: botState_get_def botState_set_def)

lemma botState_get_delete:
  "k \<noteq> ''__proto__'' \<Longrightarrow> botState_get (botState_delete bs k) k = None"
  by (simp add: botState_get_def botState_delete_def)

lemma botId_falsy: "\<not> truthy_id v \<Longrightarrow> botId_of v = ''unknown''"
  by (simp add: botId_of_def)

lemma reward_of_cases:
  "reward_of v =
     (case v of
        JNum n \<Rightarrow> if truthy_num n then n else Fin 0
      | JBool b \<Rightarrow> if b then Fin 1 else Fin 0
      | _ \<Rightarrow> Fin 0)"
  by (cases v) (simp_all add: reward_of_def js_or_def)

text \<open>
  The hypotheses of the properties below hold along every run: the handler keeps the
  rows at one value per action and the decisions at an index of \<open>ACTIONS\<close> and a state
  key, from the empty table and the empty record on (\<open>wf_default_server\<close>,
  \<open>conn_inv_new\<close>).
\<close>

lemma chooseAction_index:
  assumes "wf_table srv" "0 \<le> u2" "u2 < 1"
  shows "fst (chooseAction u1 u2 srv k) < length ACTIONS"
proof (cases "jlt (Fin u1) (EPSILON srv)")
  case True
  have "\<lfloor>u2 * 6\<rfloor> < 6" using assms(3) by (simp add: floor_less_iff)
  moreover have "0 \<le> \<lfloor>u2 * 6\<rfloor>" using assms(2) by simp
  ultimately have "nat \<lfloor>u2 * 6\<rfloor> < 6" by linarith
  moreover have "real (length ACTIONS) = 6" by (simp add: ACTIONS_def)
  ultimately show ?thesis using True
    by (simp add: chooseAction_def Let_def)
next
  case False
  then have b: "fst (chooseAction u1 u2 srv k) = best_loop (row_or_zero srv k) 0 0 NegInf"
    by (rule chooseAction_exploit)
  have len: "length (row_or_zero srv k) = length ACTIONS" using assms(1) by (rule wf_row_or_zero)
  then have "row_or_zero srv k \<noteq> []" by (auto simp add: ACTIONS_def)
  from best_post_max [OF best_loop_spec this] show ?thesis unfolding b len by simp
qed

lemma conn_inv_set:
  "conn_inv bs \<Longrightarrow> actionIdx e < length ACTIONS \<Longrightarrow> is_stateKey (state e) \<Longrightarrow>
   conn_inv (botState_set bs k e)"
  by (auto simp add: conn_inv_def botState_get_def botState_set_def split: if_splits)

lemma conn_inv_delete: "conn_inv bs \<Longrightarrow> conn_inv (botState_delete bs k)"
  by (auto simp add: conn_inv_def botState_get_def botState_delete_def split: if_splits)

lemma conn_inv_new: "conn_inv new_botState"
  by (simp add: conn_inv_def botState_get_def new_botState_def)

lemma on_message_invariant:
  assumes "wf_table srv" "conn_inv bs" "0 \<le> u2" "u2 < 1"
  shows "wf_table (fst (on_message u1 u2 now msg (srv, bs))) \<and>
     conn_inv (fst (snd (on_message u1 u2 now msg (srv, bs))))"
proof -
  consider (obs) "mtype msg = ''obs''"
    | (reward) "mtype msg = ''reward''"
    | (other) "mtype msg \<noteq> ''obs''" "mtype msg \<noteq> ''reward''" by blast
  then show ?thesis
  proof cases
    case obs
    have "wf_table (ensureState srv (discretize (obs_or_empty (obs msg))))"
      using assms(1) by (rule wf_ensureState)
    moreover have "conn_inv (botState_set bs (botId_of (botId msg))
       \<lparr>state = discretize (obs_or_empty (obs msg)),
        actionIdx = fst (chooseAction u1 u2 srv (discretize (obs_or_empty (obs msg)))),
        lastObsAt = now\<rparr>)"
      using assms(2) chooseAction_index [OF assms(1,3,4)]
      by (intro conn_inv_set) (simp_all add: discretize_is_stateKey)
    ultimately show ?thesis
      using obs by (simp add: on_message_def on_obs_server on_obs_botState)
  next
    case reward
    show ?thesis
    proof (cases "botState_get bs (botId_of (botId msg))")
      case None
      with reward assms show ?thesis by (simp add: on_message_def on_reward_def Let_def)
    next
      case (Some e)
      with assms(2) have "actionIdx e < length ACTIONS" by (simp add: conn_inv_def)
      with assms(1) have "wf_table (updateQ srv (state e) (actionIdx e)
          (reward_of (reward msg)) (discretize (obs_or_empty (nextObs msg))))"
        by (rule wf_updateQ)
      with reward Some assms(2) show ?thesis
        by (simp add: on_message_def on_reward_def Let_def conn_inv_delete)
    qed
  next
    case other
    with assms show ?thesis by (simp add: on_message_def)
  qed
qed

text \<open>
  Claim C10. An observation message changes the table at most by one new row: every
  key has the row it had, but the key of the observation, if it had none, has the row of
  zeros with one entry per action. \<open>EPSILON\<close>, \<open>ALPHA\<close> and \<open>GAMMA\<close> stay.
\<close>

theorem obs_only_adds_zero_row:
  assumes "mtype msg = ''obs''"
  shows "(\<forall>k. qtable (fst (on_message u1 u2 now msg (srv, bs))) k =
       (if k = discretize (obs_or_empty (obs msg)) \<and> qtable srv k = None
        then Some (replicate (length ACTIONS) (Fin 0)) else qtable srv k)) \<and>
     EPSILON (fst (on_message u1 u2 now msg (srv, bs))) = EPSILON srv \<and>
     ALPHA (fst (on_message u1 u2 now msg (srv, bs))) = ALPHA srv \<and>
     GAMMA (fst (on_message u1 u2 now msg (srv, bs))) = GAMMA srv"
proof -
  have "fst (on_message u1 u2 now msg (srv, bs)) =
      ensureState srv (discretize (obs_or_empty (obs msg)))"
    using assms by (simp add: on_message_def on_obs_server)
  then show ?thesis
    by (auto simp add: ensureState_qtable row_or_zero_def split: option.splits)
qed

text \<open>
  Witness of C10: the observation of the scenario leaves the row of its key in the demo
  table as it is, and creates the row of zeros in the empty table.
\<close>

theorem obs_only_adds_zero_row_witness:
  "mtype (obs_msg (IdStr ''b1'')) = ''obs'' \<and>
   qtable (fst (on_message (1 / 2) (1 / 2) 0 (obs_msg (IdStr ''b1'')) (demo_server, new_botState)))
     demo_key = Some [Fin 1, Fin 3, Fin 3, Fin 0, Fin 2, Fin 0] \<and>
   qtable (fst (on_message (1 / 2) (1 / 2) 0 (obs_msg (IdStr ''b1'')) (default_server, new_botState)))
     demo_key = Some [Fin 0, Fin 0, Fin 0, Fin 0, Fin 0, Fin 0]"
proof -
  have h: "mtype (obs_msg (IdStr ''b1'')) = ''obs''" by (simp add: obs_msg_def)
  have k: "discretize (obs_or_empty (obs (obs_msg (IdStr ''b1'')))) = demo_key"
    by (simp add: obs_msg_def obs_or_empty_def discretize_demo)
  note r = obs_only_adds_zero_row [OF h, THEN conjunct1, THEN spec, of _ _ _ _ _ demo_key]
  have "qtable (fst (on_message (1 / 2) (1 / 2) 0 (obs_msg (IdStr ''b1''))
      (demo_server, new_botState))) demo_key = Some [Fin 1, Fin 3, Fin 3, Fin 0, Fin 2, Fin 0]"
    using r [of "1 / 2" "1 / 2" 0 demo_server new_botState] by (simp add: k demo_server_def)
  moreover have "qtable (fst (on_message (1 / 2) (1 / 2) 0 (obs_msg (IdStr ''b1''))
      (default_server, new_botState))) demo_key = Some [Fin 0, Fin 0, Fin 0, Fin 0, Fin 0, Fin 0]"
    using r [of "1 / 2" "1 / 2" 0 default_server new_botState]
    by (simp add: k default_server_def init_server_def ACTIONS_def)
  ultimately show ?thesis using h by blast
qed

text \<open>
  Claim C4. A reward message for a bot identifier under which the connection holds no
  decision changes nothing: the process-wide state (the table with it) and the
  connection's record are what they were, and nothing is sent.
\<close>

theorem reward_without_pending:
  assumes "mtype msg = ''reward''" "botState_get bs (botId_of (botId msg)) = None"
  shows "on_message u1 u2 now msg (srv, bs) = (srv, bs, None)"
  using assms by (simp add: on_message_def on_reward_def Let_def)

text \<open>Witness of C4: a reward for bot \<open>b1\<close> on a connection that has seen no observation.\<close>

theorem reward_without_pending_witness:
  "mtype (reward_msg (IdStr ''b1'') (JNum (Fin 5))) = ''reward'' \<and>
   botState_get new_botState (botId_of (botId (reward_msg (IdStr ''b1'') (JNum (Fin 5))))) = None \<and>
   on_message (1 / 2) (1 / 2) 0 (reward_msg (IdStr ''b1'') (JNum (Fin 5)))
     (demo_server, new_botState) = (demo_server, new_botState, None)"
proof -
  have h: "mtype (reward_msg (IdStr ''b1'') (JNum (Fin 5))) = ''reward''"
    "botState_get new_botState (botId_of (botId (reward_msg (IdStr ''b1'') (JNum (Fin 5))))) = None"
    by (simp_all add: reward_msg_def botState_get_def new_botState_def botId_of_def)
  from reward_without_pending [OF h] h show ?thesis by blast
qed

text \<open>
  Claim C8, as the code has it. There is no check of the reward. The handler passes
  \<open>Number(msg.reward || 0)\<close> to \<open>updateQ\<close>: 0 for a field that is absent, \<open>null\<close>,
  \<open>false\<close>, 0 or NaN, 1 for \<open>true\<close>, and the number itself otherwise; plus and minus
  infinity pass unchanged.
\<close>

theorem reward_passed_unchecked:
  assumes "mtype msg = ''reward''" "botState_get bs (botId_of (botId msg)) = Some e"
  shows "fst (on_message u1 u2 now msg (srv, bs)) =
       updateQ srv (state e) (actionIdx e) (reward_of (reward msg))
         (discretize (obs_or_empty (nextObs msg))) \<and>
     reward_of (reward msg) =
       (case reward msg of
          JNum n \<Rightarrow> if truthy_num n then n else Fin 0
        | JBool b \<Rightarrow> if b then Fin 1 else Fin 0
        | _ \<Rightarrow> Fin 0) \<and>
     (reward msg = JNum PosInf \<longrightarrow> reward_of (reward msg) = PosInf) \<and>
     (reward msg = JNum NegInf \<longrightarrow> reward_of (reward msg) = NegInf)"
  using assms reward_of_cases [of "reward msg"]
  by (auto simp add: on_message_def on_reward_def Let_def)

text \<open>
  Witness of C8: on a connection that holds a decision for bot \<open>b1\<close>, a reward message
  whose reward field is \<open>null\<close> updates the table with the reward 0.
\<close>

theorem reward_passed_unchecked_witness:
  "mtype (reward_msg (IdStr ''b1'') JNull) = ''reward'' \<and>
   botState_get
     (botState_set new_botState ''b1'' \<lparr>state = demo_key, actionIdx = 2, lastObsAt = 0\<rparr>)
     (botId_of (botId (reward_msg (IdStr ''b1'') JNull))) =
     Some \<lparr>state = demo_key, actionIdx = 2, lastObsAt = 0\<rparr> \<and>
   fst (on_message (1 / 2) (1 / 2) 0 (reward_msg (IdStr ''b1'') JNull)
     (demo_server,
      botState_set new_botState ''b1'' \<lparr>state = demo_key, actionIdx = 2, lastObsAt = 0\<rparr>)) =
   updateQ demo_server demo_key 2 (Fin 0) demo_key"
proof -
  have h: "mtype (reward_msg (IdStr ''b1'') JNull) = ''reward''"
    "botState_get
     (botState_set new_botState ''b1'' \<lparr>state = demo_key, actionIdx = 2, lastObsAt = 0\<rparr>)
     (botId_of (botId (reward_msg (IdStr ''b1'') JNull))) =
     Some \<lparr>state = demo_key, actionIdx = 2, lastObsAt = 0\<rparr>"
    by (simp_all add: reward_msg_def botId_of_def botState_get_set)
  have v: "reward_of (reward (reward_msg (IdStr ''b1'') JNull)) = Fin 0"
    "discretize (obs_or_empty (nextObs (reward_msg (IdStr ''b1'') JNull))) = demo_key"
    by (simp_all add: reward_msg_def reward_of_def js_or_def obs_or_empty_def discretize_demo)
  from reward_passed_unchecked [OF h, THEN conjunct1, of "1 / 2" "1 / 2" 0 demo_server]
  have "fst (on_message (1 / 2) (1 / 2) 0 (reward_msg (IdStr ''b1'') JNull)
     (demo_server,
      botState_set new_botState ''b1'' \<lparr>state = demo_key, actionIdx = 2, lastObsAt = 0\<rparr>)) =
   updateQ demo_server demo_key 2 (Fin 0) demo_key"
    unfolding v by simp
  with h show ?thesis by blast
qed

text \<open>
  Counterexample to C8 as stated: the reward \<open>1e999\<close>, which \<open>JSON.parse\<close> reads as
  Infinity, is passed to \<open>updateQ\<close> and stored in the table.
\<close>

theorem infinite_reward_reaches_updateQ:
  "reward_of (reward (reward_msg (IdStr ''b1'') (JNum PosInf))) = PosInf \<and>
   fst (run_msgs [obs_msg (IdStr ''b1''), reward_msg (IdStr ''b1'') (JNum PosInf)]
      (default_server, new_botState)) =
     updateQ (fst (run_msgs [obs_msg (IdStr ''b1'')] (default_server, new_botState)))
       demo_key 0 PosInf demo_key \<and>
   qtable (fst (run_msgs [obs_msg (IdStr ''b1''), reward_msg (IdStr ''b1'') (JNum PosInf)]
      (default_server, new_botState))) demo_key =
     Some [PosInf, Fin 0, Fin 0, Fin 0, Fin 0, Fin 0]"
  by (simp add: run_defs)

text \<open>
  Claim C9. A message whose bot identifier is absent or falsy (\<open>null\<close>, \<open>false\<close>, 0,
  NaN, the empty string) is handled exactly as the same message with the identifier
  \<open>"unknown"\<close>. So after an observation without identifier the connection holds the
  decision under \<open>"unknown"\<close>, and a reward without identifier that follows is applied to
  that decision.
\<close>

theorem missing_botId_is_unknown:
  assumes "\<not> truthy_id (botId m1)" "mtype m1 = ''obs''"
    and "\<not> truthy_id (botId m2)" "mtype m2 = ''reward''"
  shows "botId_of (botId m1) = ''unknown'' \<and> botId_of (botId m2) = ''unknown'' \<and>
    on_message u1 u2 now m1 st = on_message u1 u2 now (m1\<lparr>botId := IdStr ''unknown''\<rparr>) st \<and>
    on_message u1 u2 now m2 st = on_message u1 u2 now (m2\<lparr>botId := IdStr ''unknown''\<rparr>) st \<and>
    botState_get (fst (snd (on_message u1 u2 now m1 (srv, bs)))) ''unknown'' =
      Some \<lparr>state = discretize (obs_or_empty (obs m1)),
            actionIdx = fst (chooseAction u1 u2 srv (discretize (obs_or_empty (obs m1)))),
            lastObsAt = now\<rparr> \<and>
    fst (on_message u3 u4 now' m2
          (fst (on_message u1 u2 now m1 (srv, bs)),
           fst (snd (on_message u1 u2 now m1 (srv, bs))))) =
      updateQ (fst (on_message u1 u2 now m1 (srv, bs)))
        (discretize (obs_or_empty (obs m1)))
        (fst (chooseAction u1 u2 srv (discretize (obs_or_empty (obs m1)))))
        (reward_of (reward m2)) (discretize (obs_or_empty (nextObs m2)))"
proof -
  have 1: "botId_of (botId m1) = ''unknown''" using assms(1) by (rule botId_falsy)
  have 2: "botId_of (botId m2) = ''unknown''" using assms(3) by (rule botId_falsy)
  have u: "botId_of (IdStr ''unknown'') = ''unknown''" by (simp add: botId_of_def)
  have 3: "on_message u1 u2 now m1 st = on_message u1 u2 now (m1\<lparr>botId := IdStr ''unknown''\<rparr>) st"
    using assms(2) by (simp add: on_message_def on_obs_def 1 u)
  have 4: "on_message u1 u2 now m2 st = on_message u1 u2 now (m2\<lparr>botId := IdStr ''unknown''\<rparr>) st"
    using assms(4) by (simp add: on_message_def on_reward_def 2 u)
  have 5: "fst (snd (on_message u1 u2 now m1 (srv, bs))) =
      botState_set bs ''unknown''
        \<lparr>state = discretize (obs_or_empty (obs m1)),
         actionIdx = fst (chooseAction u1 u2 srv (discretize (obs_or_empty (obs m1)))),
         lastObsAt = now\<rparr>"
    using assms(2) by (simp add: on_message_def on_obs_botState 1)
  have 6: "botState_get (fst (snd (on_message u1 u2 now m1 (srv, bs)))) ''unknown'' =
      Some \<lparr>state = discretize (obs_or_empty (obs m1)),
            actionIdx = fst (chooseAction u1 u2 srv (discretize (obs_or_empty (obs m1)))),
            lastObsAt = now\<rparr>"
    unfolding 5 by (rule botState_get_set)
  have 7: "fst (on_message u3 u4 now' m2
          (fst (on_message u1 u2 now m1 (srv, bs)),
           fst (snd (on_message u1 u2 now m1 (srv, bs))))) =
      updateQ (fst (on_message u1 u2 now m1 (srv, bs)))
        (discretize (obs_or_empty (obs m1)))
        (fst (chooseAction u1 u2 srv (discretize (obs_or_empty (obs m1)))))
        (reward_of (reward m2)) (discretize (obs_or_empty (nextObs m2)))"
    using assms(4) 6 by (simp add: on_message_def on_reward_def Let_def 2)
  show ?thesis using 1 2 3 4 6 7 by blast
qed

text \<open>
  Witness of C9: an observation whose identifier is absent, then a reward of 5 whose
  identifier is the number 0. The reward is applied to the decision of the observation:
  the entry of action 0 becomes \<open>0 + 0.12 * (5 + 0.96 * 0 - 0) = 0.6\<close>.
\<close>

theorem missing_botId_is_unknown_witness:
  "\<not> truthy_id (botId (obs_msg (IdVal JUndefined))) \<and>
   mtype (obs_msg (IdVal JUndefined)) = ''obs'' \<and>
   \<not> truthy_id (botId (reward_msg (IdVal (JNum (Fin 0))) (JNum (Fin 5)))) \<and>
   mtype (reward_msg (IdVal (JNum (Fin 0))) (JNum (Fin 5))) = ''reward'' \<and>
   botState_get (fst (snd (on_message (1 / 2) (1 / 2) 0 (obs_msg (IdVal JUndefined))
      (default_server, new_botState)))) ''unknown'' =
     Some \<lparr>state = demo_key, actionIdx = 0, lastObsAt = 0\<rparr> \<and>
   qtable (fst (run_msgs [obs_msg (IdVal JUndefined),
      reward_msg (IdVal (JNum (Fin 0))) (JNum (Fin 5))] (default_server, new_botState)))
     demo_key = Some [Fin (3 / 5), Fin 0, Fin 0, Fin 0, Fin 0, Fin 0]"
proof -
  have h: "\<not> truthy_id (botId (obs_msg (IdVal JUndefined)))"
    "mtype (obs_msg (IdVal JUndefined)) = ''obs''"
    "\<not> truthy_id (botId (reward_msg (IdVal (JNum (Fin 0))) (JNum (Fin 5))))"
    "mtype (reward_msg (IdVal (JNum (Fin 0))) (JNum (Fin 5))) = ''reward''"
    by (simp_all add: obs_msg_def reward_msg_def)
  have k: "discretize (obs_or_empty (obs (obs_msg (IdVal JUndefined)))) = demo_key"
    by (simp add: obs_msg_def obs_or_empty_def discretize_demo)
  have c: "fst (chooseAction (1 / 2) (1 / 2) default_server demo_key) = 0"
    by (simp add: run_defs)
  from missing_botId_is_unknown [OF h, of "1 / 2" "1 / 2" 0 _ default_server new_botState]
  have "botState_get (fst (snd (on_message (1 / 2) (1 / 2) 0 (obs_msg (IdVal JUndefined))
      (default_server, new_botState)))) ''unknown'' =
     Some \<lparr>state = demo_key, actionIdx = 0, lastObsAt = 0\<rparr>"
    unfolding k c by blast
  moreover have "qtable (fst (run_msgs [obs_msg (IdVal JUndefined),
      reward_msg (IdVal (JNum (Fin 0))) (JNum (Fin 5))] (default_server, new_botState)))
     demo_key = Some [Fin (3 / 5), Fin 0, Fin 0, Fin 0, Fin 0, Fin 0]"
    by (simp add: run_defs)
  ultimately show ?thesis using h by blast
qed

section \<open>The record of decisions\<close>

text \<open>
  The parts of claim C5 that the code follows. A second observation for a bot replaces
  the decision the connection holds for it. A reward removes the decision it consumes,
  for every identifier but \<open>__proto__\<close>, so a second reward finds none.
\<close>

lemma record_overwrites:
  assumes "mtype m1 = ''obs''" "mtype m2 = ''obs''" "botId_of (botId m1) = botId_of (botId m2)"
  shows "botState_get
      (fst (snd (on_message u3 u4 now' m2
         (fst (on_message u1 u2 now m1 (srv, bs)),
          fst (snd (on_message u1 u2 now m1 (srv, bs)))))))
      (botId_of (botId m2)) =
    Some \<lparr>state = discretize (obs_or_empty (obs m2)),
       actionIdx = fst (chooseAction u3 u4 (fst (on_message u1 u2 now m1 (srv, bs)))
          (discretize (obs_or_empty (obs m2)))),
       lastObsAt = now'\<rparr>"
  using assms by (simp add: on_message_def on_obs_botState botState_get_set)

lemma consume_removes:
  assumes "mtype msg = ''reward''" "botId_of (botId msg) \<noteq> ''__proto__''"
    and "botState_get bs (botId_of (botId msg)) = Some e"
  shows "botState_get (fst (snd (on_message u1 u2 now msg (srv, bs)))) (botId_of (botId msg)) = None"
  using assms by (simp add: on_message_def on_reward_def Let_def botState_get_delete)

text \<open>
  Claim C5. Consuming a decision should remove it for every bot identifier. The code
  does not for the identifier \<open>__proto__\<close>: the observation stores the decision as the
  prototype of \<open>ws._botState\<close>, the reward finds it there and updates the table, and
  \<open>delete ws._botState[botId]\<close> removes nothing. The decision is still there after the
  reward, and a second reward updates the table once more (0.6, then 1.19712); for the
  identifier \<open>b1\<close> the same messages leave no decision.
\<close>

theorem consume_keeps_proto_decision:
  "botState_get (snd (run_msgs [obs_msg (IdStr ''__proto__'')] (default_server, new_botState)))
      ''__proto__'' = Some \<lparr>state = demo_key, actionIdx = 0, lastObsAt = 0\<rparr> \<and>
   botState_get (snd (run_msgs [obs_msg (IdStr ''__proto__''),
        reward_msg (IdStr ''__proto__'') (JNum (Fin 5))] (default_server, new_botState)))
      ''__proto__'' = Some \<lparr>state = demo_key, actionIdx = 0, lastObsAt = 0\<rparr> \<and>
   qtable (fst (run_msgs [obs_msg (IdStr ''__proto__''),
        reward_msg (IdStr ''__proto__'') (JNum (Fin 5))] (default_server, new_botState)))
      demo_key = Some [Fin (3 / 5), Fin 0, Fin 0, Fin 0, Fin 0, Fin 0] \<and>
   qtable (fst (run_msgs [obs_msg (IdStr ''__proto__''),
        reward_msg (IdStr ''__proto__'') (JNum (Fin 5)),
        reward_msg (IdStr ''__proto__'') (JNum (Fin 5))] (default_server, new_botState)))
      demo_key = Some [Fin (3741 / 3125), Fin 0, Fin 0, Fin 0, Fin 0, Fin 0] \<and>
   botState_get (snd (run_msgs [obs_msg (IdStr ''b1''),
        reward_msg (IdStr ''b1'') (JNum (Fin 5))] (default_server, new_botState)))
      ''b1'' = None"
  by (simp add: run_defs)

end
